theory Spec2Isabelle
  imports Complex_Main "HOL-Library.AList"
begin

section \<open>Model library (fit.cpp, lines 14--105)\<close>

text \<open>
  The C++ type \<open>double\<close> is idealised as \<^typ>\<open>real\<close> in this section: the
  definitions are the formulas the source writes down, without rounding, overflow
  or NaN. Where overflow changes what a formula yields, the formula is given a
  second time below, in an arithmetic that has the infinities and NaN. An ALGLIB
  \<open>real_1d_array\<close> is a \<^typ>\<open>real list\<close>, read with \<open>!\<close> as the source reads it
  with \<open>[]\<close>. A gradient evaluator writes \<open>func\<close> and the two cells \<open>grad[0]\<close>,
  \<open>grad[1]\<close>; the model returns the pair of \<open>func\<close> and the two-cell array.
\<close>

definition sech :: "real \<Rightarrow> real" where
  "sech x = 1 / cosh x"

definition logistic :: "real \<Rightarrow> real \<Rightarrow> real \<Rightarrow> real" where
  "logistic k alpha x = 1 / (1 + exp (- k * (x - alpha)))"

definition logistic_f :: "real list \<Rightarrow> real list \<Rightarrow> real" where
  "logistic_f c x = 1 - logistic (c ! 0) (c ! 1) (x ! 0)"

definition logistic_fd :: "real list \<Rightarrow> real list \<Rightarrow> real \<times> real list" where
  "logistic_fd c x =
     (1 - logistic (c ! 0) (c ! 1) (x ! 0),
      [- ((((x ! 0 - c ! 1) * exp (c ! 0 * (c ! 1 - x ! 0)))
             / (exp (c ! 0 * (c ! 1 - x ! 0)) + 1))
            * (exp (c ! 0 * (c ! 1 - x ! 0)) + 1)),
       ((c ! 0 * exp (c ! 0 * (c ! 1 - x ! 0)))
             / (exp (c ! 0 * (c ! 1 - x ! 0)) + 1))
            * exp (c ! 0 * (c ! 1 - x ! 0))])"

definition hyperbolic_tangent :: "real \<Rightarrow> real \<Rightarrow> real \<Rightarrow> real" where
  "hyperbolic_tangent k alpha x =
     ((exp (k * (x - alpha)) - exp (- k * (x - alpha)))
        / (exp (k * (x - alpha)) + exp (- k * (x - alpha))) + 1) / 2"

definition hyperbolic_f :: "real list \<Rightarrow> real list \<Rightarrow> real" where
  "hyperbolic_f c x = 1 - hyperbolic_tangent (c ! 0) (c ! 1) (x ! 0)"

definition hyperbolic_fd :: "real list \<Rightarrow> real list \<Rightarrow> real \<times> real list" where
  "hyperbolic_fd c x =
     (1 - hyperbolic_tangent (c ! 0) (c ! 1) (x ! 0),
      [- (2 * (x ! 0 - c ! 1) * exp (2 * c ! 0 * (x ! 0 - c ! 1)))
          / ((exp (2 * c ! 0 * (x ! 0 - c ! 1)) + 1) * (exp (2 * c ! 0 * (x ! 0 - c ! 1)) + 1)),
       (2 * c ! 0 * exp (2 * c ! 0 * (x ! 0 - c ! 1)))
          / ((exp (2 * c ! 0 * (x ! 0 - c ! 1)) + 1) * (exp (2 * c ! 0 * (x ! 0 - c ! 1)) + 1))])"

definition arctangent :: "real \<Rightarrow> real \<Rightarrow> real \<Rightarrow> real" where
  "arctangent k alpha x = (arctan (k * (x - alpha)) + 1) / 2"

definition arctangent_f :: "real list \<Rightarrow> real list \<Rightarrow> real" where
  "arctangent_f c x = 1 - arctangent (c ! 0) (c ! 1) (x ! 0)"

definition arctangent_fd :: "real list \<Rightarrow> real list \<Rightarrow> real \<times> real list" where
  "arctangent_fd c x =
     (1 - arctangent (c ! 0) (c ! 1) (x ! 0),
      [- ((x ! 0 - c ! 1) / (2 * (c ! 0 * c ! 0 * (x ! 0 - c ! 1) * (x ! 0 - c ! 1) + 1))),
       - (c ! 0 / (2 * (c ! 0 * c ! 0 * (x ! 0 - c ! 1) * (x ! 0 - c ! 1) + 1)))])"

definition gudermannian :: "real \<Rightarrow> real \<Rightarrow> real \<Rightarrow> real" where
  "gudermannian k alpha x = ((2 * arctan (tanh (k * (x - alpha) / 2))) + 1) / 2"

definition gudermannian_f :: "real list \<Rightarrow> real list \<Rightarrow> real" where
  "gudermannian_f c x = 1 - gudermannian (c ! 0) (c ! 1) (x ! 0)"

text \<open>
  In \<open>gudermannian_fd\<close> the source writes \<open>1/2 * c[0] * (x[0] - c[1])\<close>: the
  quotient \<open>1/2\<close> of two \<open>int\<close> literals is the integer division, taken before the
  product with the \<open>double\<close>. It is \<^term>\<open>(1::int) div 2\<close> here.
\<close>

definition gudermannian_fd :: "real list \<Rightarrow> real list \<Rightarrow> real \<times> real list" where
  "gudermannian_fd c x =
     (1 - gudermannian (c ! 0) (c ! 1) (x ! 0),
      [- ((x ! 0 - c ! 1) * sech (real_of_int (1 div 2) * c ! 0 * (x ! 0 - c ! 1))
                          * sech (real_of_int (1 div 2) * c ! 0 * (x ! 0 - c ! 1)))
          / (2 * ((tanh (real_of_int (1 div 2) * c ! 0 * (x ! 0 - c ! 1))
                   * tanh (real_of_int (1 div 2) * c ! 0 * (x ! 0 - c ! 1)) + 1))),
       c ! 0 * sech (real_of_int (1 div 2) * c ! 0 * (x ! 0 - c ! 1))
             * sech (real_of_int (1 div 2) * c ! 0 * (x ! 0 - c ! 1))
          / (2 * (tanh (real_of_int (1 div 2) * c ! 0 * (x ! 0 - c ! 1))
                  * tanh (real_of_int (1 div 2) * c ! 0 * (x ! 0 - c ! 1)) + 1))])"

definition algebraic :: "real \<Rightarrow> real \<Rightarrow> real \<Rightarrow> real" where
  "algebraic k alpha x =
     (let term = k * (x - alpha)
      in ((k * (x - alpha)) / (sqrt (1 + term * term)) + 1) / 2)"

definition algebraic_f :: "real list \<Rightarrow> real list \<Rightarrow> real" where
  "algebraic_f c x = 1 - algebraic (c ! 0) (c ! 1) (x ! 0)"

definition algebraic_fd :: "real list \<Rightarrow> real list \<Rightarrow> real \<times> real list" where
  "algebraic_fd c x =
     (1 - algebraic (c ! 0) (c ! 1) (x ! 0),
      [- ((x ! 0 - c ! 1)
           / (2 * (sqrt ((c ! 0 * c ! 0 * (x ! 0 - c ! 1) * (x ! 0 - c ! 1) + 1)
                       * (c ! 0 * c ! 0 * (x ! 0 - c ! 1) * (x ! 0 - c ! 1) + 1)
                       * (c ! 0 * c ! 0 * (x ! 0 - c ! 1) * (x ! 0 - c ! 1) + 1))))),
       - (c ! 0
           / (2 * (sqrt ((c ! 0 * c ! 0 * (x ! 0 - c ! 1) * (x ! 0 - c ! 1) + 1)
                       * (c ! 0 * c ! 0 * (x ! 0 - c ! 1) * (x ! 0 - c ! 1) + 1)
                       * (c ! 0 * c ! 0 * (x ! 0 - c ! 1) * (x ! 0 - c ! 1) + 1)))))])"



section \<open>Overflow in the hyperbolic tangent (line 37)\<close>

text \<open>
  A \<open>double\<close> is a finite number, an infinity or NaN. The operations below follow
  IEEE 754 on the infinities and on NaN, and turn a finite result beyond the
  largest finite \<open>double\<close> into an infinity; a finite result within range is kept
  exact (rounding and the sign of zero are not modelled).
\<close>

datatype double = Finite real | PlusInf | MinusInf | NaN

definition DBL_MAX :: real where
  "DBL_MAX = (2 ^ 53 - 1) * 2 ^ 971"

definition overflow :: "real \<Rightarrow> double" where
  "overflow r =
     (if DBL_MAX < r then PlusInf else if r < - DBL_MAX then MinusInf else Finite r)"

fun d_neg :: "double \<Rightarrow> double" where
  "d_neg (Finite a) = Finite (- a)"
| "d_neg PlusInf = MinusInf"
| "d_neg MinusInf = PlusInf"
| "d_neg NaN = NaN"

fun d_add :: "double \<Rightarrow> double \<Rightarrow> double" where
  "d_add (Finite a) (Finite b) = overflow (a + b)"
| "d_add NaN b = NaN"
| "d_add a NaN = NaN"
| "d_add PlusInf MinusInf = NaN"
| "d_add MinusInf PlusInf = NaN"
| "d_add PlusInf b = PlusInf"
| "d_add a PlusInf = PlusInf"
| "d_add MinusInf b = MinusInf"
| "d_add a MinusInf = MinusInf"

definition d_sub :: "double \<Rightarrow> double \<Rightarrow> double" where
  "d_sub a b = d_add a (d_neg b)"

fun d_mul :: "double \<Rightarrow> double \<Rightarrow> double" where
  "d_mul (Finite a) (Finite b) = overflow (a * b)"
| "d_mul NaN b = NaN"
| "d_mul a NaN = NaN"
| "d_mul (Finite a) PlusInf = (if a = 0 then NaN else if 0 < a then PlusInf else MinusInf)"
| "d_mul (Finite a) MinusInf = (if a = 0 then NaN else if 0 < a then MinusInf else PlusInf)"
| "d_mul PlusInf (Finite b) = (if b = 0 then NaN else if 0 < b then PlusInf else MinusInf)"
| "d_mul MinusInf (Finite b) = (if b = 0 then NaN else if 0 < b then MinusInf else PlusInf)"
| "d_mul PlusInf PlusInf = PlusInf"
| "d_mul MinusInf MinusInf = PlusInf"
| "d_mul PlusInf MinusInf = MinusInf"
| "d_mul MinusInf PlusInf = MinusInf"

fun d_div :: "double \<Rightarrow> double \<Rightarrow> double" where
  "d_div (Finite a) (Finite b) =
     (if b = 0 then (if a = 0 then NaN else if 0 < a then PlusInf else MinusInf)
      else overflow (a / b))"
| "d_div NaN b = NaN"
| "d_div a NaN = NaN"
| "d_div (Finite a) PlusInf = Finite 0"
| "d_div (Finite a) MinusInf = Finite 0"
| "d_div PlusInf (Finite b) = (if 0 \<le> b then PlusInf else MinusInf)"
| "d_div MinusInf (Finite b) = (if 0 \<le> b then MinusInf else PlusInf)"
| "d_div PlusInf PlusInf = NaN"
| "d_div PlusInf MinusInf = NaN"
| "d_div MinusInf PlusInf = NaN"
| "d_div MinusInf MinusInf = NaN"

fun d_exp :: "double \<Rightarrow> double" where
  "d_exp (Finite a) = overflow (exp a)"
| "d_exp PlusInf = PlusInf"
| "d_exp MinusInf = Finite 0"
| "d_exp NaN = NaN"

text \<open>Lines 37 and 42 of the source, operation by operation, in this arithmetic.\<close>

definition hyperbolic_tangent_double :: "double \<Rightarrow> double \<Rightarrow> double \<Rightarrow> double" where
  "hyperbolic_tangent_double k alpha x =
     d_div
       (d_add
          (d_div
             (d_sub (d_exp (d_mul k (d_sub x alpha)))
                    (d_exp (d_mul (d_neg k) (d_sub x alpha))))
             (d_add (d_exp (d_mul k (d_sub x alpha)))
                    (d_exp (d_mul (d_neg k) (d_sub x alpha)))))
          (Finite 1))
       (Finite 2)"

definition hyperbolic_f_double :: "double list \<Rightarrow> double list \<Rightarrow> double" where
  "hyperbolic_f_double c x =
     d_sub (Finite 1) (hyperbolic_tangent_double (c ! 0) (c ! 1) (x ! 0))"


section \<open>Checked array access and counted loops\<close>

text \<open>
  \<open>std::vector::operator[]\<close> and the ALGLIB array accessors do not check their
  index: a read or write outside the array is undefined behaviour. The model makes
  every such access a checked one, with \<open>None\<close> for the undefined case, so that a
  theorem saying a run is in bounds is a theorem that no \<open>None\<close> arises.
\<close>

definition rd :: "'a list \<Rightarrow> nat \<Rightarrow> 'a option" where
  "rd xs i = (if i < length xs then Some (xs ! i) else None)"

definition wr :: "'a list \<Rightarrow> nat \<Rightarrow> 'a \<Rightarrow> 'a list option" where
  "wr xs i v = (if i < length xs then Some (xs[i := v]) else None)"

definition wr2 :: "'a list list \<Rightarrow> nat \<Rightarrow> nat \<Rightarrow> 'a \<Rightarrow> 'a list list option" where
  "wr2 xs i j v =
     (case rd xs i of None \<Rightarrow> None
      | Some row \<Rightarrow> (case wr row j v of None \<Rightarrow> None | Some row' \<Rightarrow> wr xs i row'))"

text \<open>A \<open>for\<close> loop over the given indices whose body may step out of bounds.\<close>

fun for_each :: "(nat \<Rightarrow> 's \<Rightarrow> 's option) \<Rightarrow> nat list \<Rightarrow> 's \<Rightarrow> 's option" where
  "for_each body [] s = Some s"
| "for_each body (i # is) s =
     (case body i s of None \<Rightarrow> None | Some s' \<Rightarrow> for_each body is s')"


section \<open>ECDF points (fitClasses, lines 234--247)\<close>

text \<open>
  \<open>std::vector<double> y(l + 2)\<close> is value-initialised, so it starts as \<open>l + 2\<close>
  zeros. The loop writes \<open>y[i + 1]\<close> for \<open>i < l\<close>; then \<open>y[0]\<close> and \<open>y[l + 1]\<close> are
  set. All these indices are below \<open>l + 2\<close>, so plain list update is the store.
  The quotient \<open>static_cast<double>(i + 1) / (l + 1)\<close> is a division of reals.
\<close>

definition ecdf_y :: "nat \<Rightarrow> real list" where
  "ecdf_y l =
     ((fold (\<lambda>i y. y[i + 1 := 1 - real (i + 1) / real (l + 1)]) [0..<l]
            (replicate (l + 2) 0))
        [0 := 1]) [l + 1 := 0]"

text \<open>The two \<open>insert\<close> calls on \<open>pair.second\<close>: \<open>0\<close> at \<open>begin()\<close>, then \<open>1\<close> at \<open>end()\<close>.\<close>

definition augment :: "real list \<Rightarrow> real list" where
  "augment d = (0 # d) @ [1]"


section \<open>curveFitting (lines 108--228)\<close>

subsection \<open>Copying into the solver's arrays (lines 115--131)\<close>

text \<open>
  \<open>setlength\<close> gives \<open>x\<close> the shape \<open>n \<times> 1\<close> and \<open>y\<close>, \<open>w\<close> the length of
  \<open>y_values\<close>; every cell is written by the loops below, so the initial contents
  (zeros here) never show. The third loop runs to \<open>y_values.size()\<close> but reads
  \<open>sorted_distances\<close>.
\<close>

definition curveFitting_arrays ::
  "real list \<Rightarrow> real list \<Rightarrow> (real list list \<times> real list \<times> real list) option" where
  "curveFitting_arrays sorted_distances y_values =
     (case for_each (\<lambda>i x. case rd sorted_distances i of None \<Rightarrow> None
                              | Some v \<Rightarrow> wr2 x i 0 v)
             [0..<length sorted_distances] (replicate (length sorted_distances) [0]) of
        None \<Rightarrow> None
      | Some x \<Rightarrow>
     (case for_each (\<lambda>i y. case rd y_values i of None \<Rightarrow> None
                              | Some v \<Rightarrow> wr y i v)
             [0..<length y_values] (replicate (length y_values) 0) of
        None \<Rightarrow> None
      | Some y \<Rightarrow>
     (case for_each (\<lambda>i w. case rd sorted_distances i of None \<Rightarrow> None
                              | Some v \<Rightarrow> wr w i (v * v))
             [0..<length y_values] (replicate (length y_values) 0) of
        None \<Rightarrow> None
      | Some w \<Rightarrow> Some (x, y, w))))"

subsection \<open>The five fits (lines 133--196)\<close>

text \<open>
  Modelled from the spec: the ALGLIB solver (\<open>interpolation.h\<close>) is not part of the
  sources. The four calls \<open>lsfitcreatewfg\<close>, \<open>lsfitsetcond\<close>, \<open>lsfitfit\<close>,
  \<open>lsfitresults\<close> of one fit are one opaque function, a parameter of the model: it is
  given the residual and gradient evaluators, the arrays \<open>x\<close>, \<open>y\<close>, \<open>w\<close>, the initial
  coefficients, \<open>epsx\<close> and \<open>maxits\<close>, and either throws \<open>alglib::ap_error\<close> with a
  message or yields the fitted coefficients and \<open>rep.wrmserror\<close>.
  \<open>FitResult\<close> (\<open>fit.h\<close>) has the three fields the source initialises and reads.
\<close>

datatype ap_error = ap_error (msg: string)

type_synonym lsfit =
  "(real list \<Rightarrow> real list \<Rightarrow> real) \<Rightarrow> (real list \<Rightarrow> real list \<Rightarrow> real \<times> real list)
   \<Rightarrow> real list list \<Rightarrow> real list \<Rightarrow> real list \<Rightarrow> real list \<Rightarrow> real \<Rightarrow> int
   \<Rightarrow> ap_error + (real list \<times> real)"

record FitResult =
  c :: "real list"
  functionName :: string
  wrmsError :: real

text \<open>
  What one fit was started with: the initial coefficients handed to
  \<open>lsfitcreatewfg\<close> and the two arguments of \<open>lsfitsetcond\<close>. The list of these is a
  trace kept beside the computation; nothing in the computation reads it.
\<close>

record lsfit_call =
  guess :: "real list"
  epsx :: real
  maxits :: int

text \<open>
  The variables a fit block reads and writes: the coefficient array (the source's
  one variable \<open>c\<close>, which \<open>lsfitresults\<close> overwrites), the vector \<open>results\<close>, and the
  trace.
\<close>

type_synonym fit_vars = "real list \<times> FitResult list \<times> lsfit_call list"

definition fit_block ::
  "lsfit \<Rightarrow> real list list \<Rightarrow> real list \<Rightarrow> real list \<Rightarrow> real \<Rightarrow> int
   \<Rightarrow> (real list \<Rightarrow> real list \<Rightarrow> real) \<Rightarrow> (real list \<Rightarrow> real list \<Rightarrow> real \<times> real list)
   \<Rightarrow> string \<Rightarrow> fit_vars \<Rightarrow> ap_error + fit_vars" where
  "fit_block solver x y w eps its f fd name vars =
     (case vars of (coef, results, calls) \<Rightarrow>
        (case solver f fd x y w coef eps its of
           Inl e \<Rightarrow> Inl e
         | Inr (coef', err) \<Rightarrow>
             Inr (coef',
                  results @ [\<lparr>c = coef', functionName = name, wrmsError = err\<rparr>],
                  calls @ [\<lparr>guess = coef, epsx = eps, maxits = its\<rparr>])))"

text \<open>Sequencing: an exception thrown by one block skips the blocks after it.\<close>

definition and_then :: "ap_error + 'a \<Rightarrow> ('a \<Rightarrow> ap_error + 'b) \<Rightarrow> ap_error + 'b" where
  "and_then r k = (case r of Inl e \<Rightarrow> Inl e | Inr v \<Rightarrow> k v)"

definition curveFitting_fits ::
  "lsfit \<Rightarrow> real list list \<Rightarrow> real list \<Rightarrow> real list \<Rightarrow> ap_error + fit_vars" where
  "curveFitting_fits solver x y w =
     (let c0 = [367 / 1000, 45 / 100]; eps = 0; its = 0 in
      and_then (fit_block solver x y w eps its logistic_f logistic_fd
                  ''Logistic function'' (c0, [], [])) (\<lambda>v1.
      and_then (fit_block solver x y w eps its hyperbolic_f hyperbolic_fd
                  ''hyperbolic tangent function'' v1) (\<lambda>v2.
      and_then (fit_block solver x y w eps its arctangent_f arctangent_fd
                  ''arctangent function'' v2) (\<lambda>v3.
      and_then (fit_block solver x y w eps its gudermannian_f gudermannian_fd
                  ''gudermannian function'' v3) (\<lambda>v4.
      fit_block solver x y w eps its algebraic_f algebraic_fd
                  ''simple algebraic function'' v4)))))"

subsection \<open>Choosing and storing the best fit (lines 204--227)\<close>

definition select_best :: "FitResult list \<Rightarrow> FitResult option" where
  "select_best results =
     (case rd results 0 of None \<Rightarrow> None
      | Some first \<Rightarrow>
          Some (fold (\<lambda>result best. if wrmsError result < wrmsError best then result else best)
                  results first))"

text \<open>
  Modelled from the spec: \<open>MODEL_STATE\<close> (\<open>modelState.h\<close>) and the mutex \<open>m\<close> are
  declared outside the sources. The Best-Fit Table \<open>MODEL_STATE.bestFit\<close> is a
  mapping from class name to Fit Result, kept here as an association list;
  \<open>bestFit[className] = v\<close> is \<^const>\<open>AList.update\<close>, which replaces the value of a key
  that is present and adds the pair otherwise. Standard output is a list of
  events (number formatting is not modelled).
\<close>

datatype event =
    Header string
  | Candidate FitResult
  | Best FitResult
  | Failure string string

record model_state =
  bestFit :: "(string \<times> FitResult) list"
  cout :: "event list"

datatype outcome = Undefined_access | Threw ap_error | Returned

text \<open>
  A call of \<open>curveFitting\<close> computes without touching shared state, and then, if no
  exception left it, prints and stores inside one \<open>m.lock()\<close> \<open>\<dots>\<close> \<open>m.unlock()\<close>
  section. Its effect on the shared state is therefore one atomic step.
\<close>

definition curveFitting ::
  "lsfit \<Rightarrow> real list \<Rightarrow> real list \<Rightarrow> string \<Rightarrow> model_state \<Rightarrow> outcome \<times> model_state" where
  "curveFitting solver sorted_distances y_values className st =
     (case curveFitting_arrays sorted_distances y_values of
        None \<Rightarrow> (Undefined_access, st)
      | Some (x, y, w) \<Rightarrow>
          (case curveFitting_fits solver x y w of
             Inl e \<Rightarrow> (Threw e, st)
           | Inr (coef, results, calls) \<Rightarrow>
               (case select_best results of
                  None \<Rightarrow> (Undefined_access, st)
                | Some best \<Rightarrow>
                    (Returned,
                     \<lparr>bestFit = AList.update className best (bestFit st),
                      cout = cout st @ [Header className] @ map Candidate results
                               @ [Best best]\<rparr>))))"


section \<open>fitClasses (lines 230--267)\<close>

text \<open>
  The caller's \<open>unordered_map\<close> is the list of its pairs in iteration order. For
  each pair the first loop builds \<open>y\<close>, changes the pair's vector in place and
  starts a thread on copies of the vector, of \<open>y\<close> and of the name.
\<close>

type_synonym job = "string \<times> real list \<times> real list"

definition launch :: "string \<times> real list \<Rightarrow> (string \<times> real list) \<times> job" where
  "launch pair =
     (let l = length (snd pair);
          y = ecdf_y l;
          second = augment (snd pair)
      in ((fst pair, second), (fst pair, second, y)))"

definition run_job :: "lsfit \<Rightarrow> job list \<Rightarrow> string \<Rightarrow> model_state \<Rightarrow> model_state" where
  "run_job solver jobs name st =
     (case map_of jobs name of
        None \<Rightarrow> st
      | Some (sd, y) \<Rightarrow> snd (curveFitting solver sd y name st))"

definition job_outcome :: "lsfit \<Rightarrow> job list \<Rightarrow> string \<Rightarrow> outcome" where
  "job_outcome solver jobs name =
     (case map_of jobs name of
        None \<Rightarrow> Returned
      | Some (sd, y) \<Rightarrow> fst (curveFitting solver sd y name \<lparr>bestFit = [], cout = []\<rparr>))"

text \<open>
  The second loop walks the map \<open>threads\<close> in its iteration order: \<open>join\<close>, then
  \<open>get\<close>, which rethrows what the job threw; the handler prints and returns \<open>1\<close>
  from inside the loop. The result is the return value, the threads joined so
  far and what the handler printed.
\<close>

fun join_loop :: "(string \<Rightarrow> outcome) \<Rightarrow> string list \<Rightarrow> string list
                  \<Rightarrow> int \<times> string list \<times> event list" where
  "join_loop result [] joined = (0, joined, [])"
| "join_loop result (name # rest) joined =
     (case result name of
        Threw e \<Rightarrow> (1, joined @ [name], [Failure name (msg e)])
      | _ \<Rightarrow> join_loop result rest (joined @ [name]))"

text \<open>
  The threads run concurrently. Since each job acts on the shared state in one
  atomic step, a run is described by two lists that the program does not
  control: \<open>threads_order\<close>, the order in which the second loop meets the threads,
  and \<open>finished\<close>, the jobs that have completed by the time the second loop is left,
  in the order of their completion.

  When the function is left, its local map \<open>threads\<close> is destroyed. The destructor
  of a \<open>std::thread\<close> that is still joinable calls \<open>std::terminate\<close>, which aborts the
  process: the call returns its value only if no thread is left unjoined.
\<close>

datatype call_end = Returns int | Terminates

text \<open>
  \<open>launched\<close> are the threads started by the first loop, each with the copies it
  was given; \<open>unjoined\<close> are the threads still joinable when \<open>threads\<close> goes out of
  scope; \<open>input_after\<close> and \<open>state_after\<close> are the caller's map and the shared state
  at the moment the call ends, by return or by abort.
\<close>

record fit_run =
  ended :: call_end
  launched :: "job list"
  joined :: "string list"
  unjoined :: "string list"
  input_after :: "(string \<times> real list) list"
  state_after :: model_state

definition fitClasses ::
  "lsfit \<Rightarrow> string list \<Rightarrow> string list \<Rightarrow> (string \<times> real list) list \<Rightarrow> model_state
   \<Rightarrow> fit_run" where
  "fitClasses solver threads_order finished sorted_distances st =
     (let started = map launch sorted_distances;
          jobs = map snd started;
          st' = fold (run_job solver jobs) finished st;
          (r, js, printed) = join_loop (job_outcome solver jobs) threads_order [];
          left = filter (\<lambda>n. n \<notin> set js) threads_order
      in \<lparr>ended = (if left = [] then Returns r else Terminates),
          launched = jobs,
          joined = js,
          unjoined = left,
          input_after = map fst started,
          state_after = st'\<lparr>cout := cout st' @ printed\<rparr>\<rparr>)"

text \<open>
  A schedule is possible for an input when the threads are exactly the classes,
  each once, the finished jobs are launched ones, each once, and every joined
  thread has finished (\<open>join\<close> waits for it).
\<close>

definition schedule_ok ::
  "lsfit \<Rightarrow> string list \<Rightarrow> string list \<Rightarrow> (string \<times> real list) list \<Rightarrow> bool" where
  "schedule_ok solver threads_order finished sorted_distances =
     (distinct (map fst sorted_distances)
      \<and> distinct threads_order
      \<and> set threads_order = set (map fst sorted_distances)
      \<and> distinct finished
      \<and> set finished \<subseteq> set (map fst sorted_distances)
      \<and> set (fst (snd (join_loop (job_outcome solver (map (snd \<circ> launch) sorted_distances))
                           threads_order [])))
          \<subseteq> set finished)"



section \<open>A solver to run the model on\<close>

text \<open>
  An instance of the solver parameter for concrete runs: it refuses a problem of
  at most two points, and otherwise moves the first coefficient by one and
  reports an error that depends on where it started.
\<close>

definition demo_solver :: lsfit where
  "demo_solver f fd x y w coef eps its =
     (if length y \<le> 2 then Inl (ap_error ''too few points'')
      else Inr ([coef ! 0 + 1, coef ! 1], (coef ! 0 - 2)\<^sup>2))"



section \<open>Shapes and residuals\<close>

lemma hyperbolic_tangent_tanh:
  "hyperbolic_tangent k alpha x = (tanh (k * (x - alpha)) + 1) / 2"
  by (simp add: hyperbolic_tangent_def tanh_altdef)

text \<open>
  In exact arithmetic each of the five shape functions is its closed form, and
  each residual evaluator returns \<open>1 - shape(c[0], c[1], x[0])\<close>.
\<close>

lemma shapes_exact_arithmetic:
  "logistic k alpha x = 1 / (1 + exp (- (k * (x - alpha))))
   \<and> hyperbolic_tangent k alpha x = (tanh (k * (x - alpha)) + 1) / 2
   \<and> arctangent k alpha x = (arctan (k * (x - alpha)) + 1) / 2
   \<and> gudermannian k alpha x = (2 * arctan (tanh (k * (x - alpha) / 2)) + 1) / 2
   \<and> algebraic k alpha x = (k * (x - alpha) / sqrt (1 + (k * (x - alpha))\<^sup>2) + 1) / 2
   \<and> logistic_f cf xs = 1 - logistic (cf ! 0) (cf ! 1) (xs ! 0)
   \<and> hyperbolic_f cf xs = 1 - hyperbolic_tangent (cf ! 0) (cf ! 1) (xs ! 0)
   \<and> arctangent_f cf xs = 1 - arctangent (cf ! 0) (cf ! 1) (xs ! 0)
   \<and> gudermannian_f cf xs = 1 - gudermannian (cf ! 0) (cf ! 1) (xs ! 0)
   \<and> algebraic_f cf xs = 1 - algebraic (cf ! 0) (cf ! 1) (xs ! 0)
   \<and> fst (logistic_fd cf xs) = 1 - logistic (cf ! 0) (cf ! 1) (xs ! 0)
   \<and> fst (hyperbolic_fd cf xs) = 1 - hyperbolic_tangent (cf ! 0) (cf ! 1) (xs ! 0)
   \<and> fst (arctangent_fd cf xs) = 1 - arctangent (cf ! 0) (cf ! 1) (xs ! 0)
   \<and> fst (gudermannian_fd cf xs) = 1 - gudermannian (cf ! 0) (cf ! 1) (xs ! 0)
   \<and> fst (algebraic_fd cf xs) = 1 - algebraic (cf ! 0) (cf ! 1) (xs ! 0)"
proof -
  have a: "algebraic k alpha x = (k * (x - alpha) / sqrt (1 + (k * (x - alpha))\<^sup>2) + 1) / 2"
    by (simp add: algebraic_def Let_def power2_eq_square)
  have l: "logistic k alpha x = 1 / (1 + exp (- (k * (x - alpha))))"
    by (simp add: logistic_def)
  show ?thesis
    unfolding logistic_f_def hyperbolic_f_def arctangent_f_def gudermannian_f_def
      algebraic_f_def logistic_fd_def hyperbolic_fd_def arctangent_fd_def
      gudermannian_fd_def algebraic_fd_def fst_conv
    using a l hyperbolic_tangent_tanh [of k alpha x]
    by (simp add: arctangent_def gudermannian_def)
qed

lemma DBL_MAX_bounds: "1000 < DBL_MAX" "DBL_MAX < 2 ^ 1024"
proof -
  have "(2::real) ^ 1024 = 2 ^ 53 * 2 ^ 971" by (simp flip: power_add)
  moreover have "((2::real) ^ 53 - 1) * 2 ^ 971 < 2 ^ 53 * 2 ^ 971"
    by (intro mult_strict_right_mono) simp_all
  ultimately show "DBL_MAX < 2 ^ 1024" by (simp add: DBL_MAX_def)
  have "(1000::real) < (2 ^ 53 - 1) * 1" by simp
  also have "\<dots> \<le> (2 ^ 53 - 1) * 2 ^ 971"
    by (intro mult_left_mono) simp_all
  finally show "1000 < DBL_MAX" by (simp add: DBL_MAX_def)
qed

lemma exp_1000_overflows: "DBL_MAX < exp (1000 :: real)"
proof -
  have "(5/2 :: real) \<le> exp 1"
    using exp_lower_Taylor_quadratic [of "1::real"] by simp
  then have "(5/2 :: real) ^ 1000 \<le> exp 1 ^ 1000"
    by (intro power_mono) simp_all
  also have "\<dots> = exp (1000 :: real)"
    using exp_of_nat_mult [of 1000 "1::real"] by simp
  finally have a: "(5/2 :: real) ^ 1000 \<le> exp 1000" .
  have b: "(2::real) ^ 1024 \<le> (5/2) ^ 1000"
  proof -
    have "(2::real) ^ 1024 \<le> 2 ^ 1250" by (intro power_increasing) simp_all
    also have "\<dots> = (2 ^ 5) ^ 250" by (simp flip: power_mult)
    also have "\<dots> \<le> ((5/2) ^ 4) ^ 250"
    proof (intro power_mono)
      show "(2::real) ^ 5 \<le> (5/2) ^ 4" by (simp add: power_divide)
    qed simp
    also have "\<dots> = (5/2) ^ 1000" by (simp flip: power_mult)
    finally show ?thesis .
  qed
  from DBL_MAX_bounds(2) b a show ?thesis by linarith
qed

lemma exp_minus_1000_in_range:
  "\<not> DBL_MAX < exp (- 1000 :: real)" "\<not> exp (- 1000 :: real) < - DBL_MAX"
proof -
  have "exp (- 1000 :: real) \<le> 1" by simp
  with DBL_MAX_bounds(1) show "\<not> DBL_MAX < exp (- 1000 :: real)" by linarith
  have "0 < exp (- 1000 :: real)" by simp
  with DBL_MAX_bounds(1) show "\<not> exp (- 1000 :: real) < - DBL_MAX" by linarith
qed

lemma small_in_range:
  "\<bar>r\<bar> \<le> 1000 \<Longrightarrow> overflow r = Finite r"
  using DBL_MAX_bounds(1) by (auto simp: overflow_def)

text \<open>
  Claim C7 says that each shape function equals its closed form for all \<open>k\<close>,
  \<open>alpha\<close>, \<open>x\<close>. The source computes the hyperbolic tangent as a quotient of sums
  of \<open>exp\<close>. At \<open>k = 1000\<close>, \<open>alpha = 0\<close>, \<open>x = 1\<close> the term \<open>exp(1000)\<close> is beyond the
  largest finite \<open>double\<close>, numerator and denominator are both infinite, and the
  shape and the residual are NaN, where the closed form \<open>(tanh(1000) + 1)/2\<close> is
  a number above \<open>1/2\<close> and at most \<open>1\<close>.
\<close>

theorem hyperbolic_tangent_overflow:
  "hyperbolic_tangent_double (Finite 1000) (Finite 0) (Finite 1) = NaN
   \<and> hyperbolic_f_double [Finite 1000, Finite 0] [Finite 1] = NaN
   \<and> 1/2 < (tanh (1000 * (1 - 0)) + 1) / (2 :: real)
   \<and> (tanh (1000 * (1 - 0)) + 1) / (2 :: real) \<le> 1"
proof -
  have sub: "d_sub (Finite 1) (Finite 0) = Finite 1"
    by (simp add: d_sub_def small_in_range)
  have pos: "d_mul (Finite 1000) (Finite 1) = Finite 1000"
    by (simp add: small_in_range)
  have neg: "d_mul (d_neg (Finite 1000)) (Finite 1) = Finite (- 1000)"
    by (simp add: small_in_range)
  have big: "d_exp (Finite 1000) = PlusInf"
    using exp_1000_overflows by (simp add: overflow_def)
  have tiny: "d_exp (Finite (- 1000)) = Finite (exp (- 1000))"
    using exp_minus_1000_in_range by (simp add: overflow_def)
  have shape: "hyperbolic_tangent_double (Finite 1000) (Finite 0) (Finite 1) = NaN"
    unfolding hyperbolic_tangent_double_def sub pos neg big tiny
    by (simp add: d_sub_def)
  then have res: "hyperbolic_f_double [Finite 1000, Finite 0] [Finite 1] = NaN"
    by (simp add: hyperbolic_f_double_def d_sub_def)
  have "0 < tanh (1000 :: real)" by simp
  moreover have "tanh (1000 :: real) < 1" by (rule tanh_real_lt_1)
  ultimately have "1/2 < (tanh (1000 * (1 - 0)) + 1) / (2 :: real)"
    "(tanh (1000 * (1 - 0)) + 1) / (2 :: real) \<le> 1"
    by simp_all
  with shape res show ?thesis by blast
qed


section \<open>Gradients\<close>

lemma sq_plus_one_nz: "1 + t * t \<noteq> 0" "t * t + 1 \<noteq> 0" "2 + t * (t * 2) \<noteq> 0" "8 + t * (t * 8) \<noteq> 0"
   "2 * (t * t) + 2 \<noteq> 0" for t :: real
proof -
  have p: "0 < 1 + t * t" by (simp add: add_pos_nonneg)
  show "1 + t * t \<noteq> 0" "t * t + 1 \<noteq> 0" using p by simp_all
  have "2 + t * (t * 2) = 2 * (1 + t * t)" "8 + t * (t * 8) = 8 * (1 + t * t)"
    "2 * (t * t) + 2 = 2 * (1 + t * t)" by (simp_all add: algebra_simps)
  then show "2 + t * (t * 2) \<noteq> 0" "8 + t * (t * 8) \<noteq> 0" "2 * (t * t) + 2 \<noteq> 0"
    using p by simp_all
qed

lemma logistic_alpha_deriv:
  "((\<lambda>a. logistic_f [1, a] [0]) has_real_derivative (1/4)) (at 0)"
  unfolding logistic_f_def logistic_def
  by (auto intro!: derivative_eq_intros simp: power2_eq_square add_pos_pos)

lemma logistic_fd_alpha: "snd (logistic_fd [1, 0] [0]) ! 1 = 1/2"
  by (simp add: logistic_fd_def)

lemma arctangent_alpha_deriv:
  "((\<lambda>a. arctangent_f [1, a] [0]) has_real_derivative (1/2)) (at 0)"
  unfolding arctangent_f_def arctangent_def
  by (auto intro!: derivative_eq_intros simp: power2_eq_square)

lemma arctangent_fd_alpha: "snd (arctangent_fd [1, 0] [0]) ! 1 = - 1/2"
  by (simp add: arctangent_fd_def)

lemma algebraic_alpha_deriv:
  "((\<lambda>a. algebraic_f [1, a] [0]) has_real_derivative (1/2)) (at 0)"
  unfolding algebraic_f_def algebraic_def Let_def
  by (auto intro!: derivative_eq_intros simp: power2_eq_square)

lemma algebraic_fd_alpha: "snd (algebraic_fd [1, 0] [0]) ! 1 = - 1/2"
  by (simp add: algebraic_fd_def)

lemma gudermannian_k_deriv:
  "((\<lambda>k. gudermannian_f [k, 0] [1]) has_real_derivative
      (- ((1 - tanh 1 * tanh 1) / (2 * (tanh 1 * tanh 1 + 1))))) (at 2)"
  unfolding gudermannian_f_def gudermannian_def
  by (auto intro!: derivative_eq_intros simp: power2_eq_square sq_plus_one_nz field_simps)

lemma gudermannian_fd_k: "snd (gudermannian_fd [2, 0] [1]) ! 0 = - 1/2"
  by (simp add: gudermannian_fd_def sech_def)

lemma gudermannian_k_differs:
  "- ((1 - tanh 1 * tanh 1) / (2 * (tanh 1 * tanh 1 + 1))) \<noteq> (- 1/2 :: real)"
proof -
  define t :: real where "t = tanh 1"
  have "t > 0" by (simp add: t_def)
  then have p: "t * t > 0" "t \<noteq> 0" by simp_all
  then have "t * t + 1 \<noteq> 0" by auto
  with p have "- ((1 - t * t) / (2 * (t * t + 1))) \<noteq> (- 1/2 :: real)"
    by (simp add: field_simps)
  then show ?thesis by (simp add: t_def)
qed

text \<open>
  Claim C1 says that each gradient evaluator returns the partial derivatives of
  its residual. The source does not: in \<open>logistic_fd\<close> the product that should be
  the squared denominator is written after the quotient and so multiplies it; in
  \<open>arctangent_fd\<close> and \<open>algebraic_fd\<close> the derivative by \<open>alpha\<close> has the wrong
  sign; in \<open>gudermannian_fd\<close> the integer quotient \<open>1/2\<close> is \<open>0\<close>. At the inputs
  below the value stored in \<open>grad\<close> is not the derivative of the residual:
  logistic at \<open>c = [1, 0]\<close>, \<open>x = 0\<close> stores \<open>1/2\<close> for \<open>alpha\<close>, the derivative is
  \<open>1/4\<close>; arctangent and simple algebraic at the same point store \<open>-1/2\<close>, the
  derivative is \<open>1/2\<close>; Gudermannian at \<open>c = [2, 0]\<close>, \<open>x = 1\<close> stores \<open>-1/2\<close> for
  \<open>k\<close>, the derivative is \<open>-(1 - tanh\<^sup>2 1) / (2 (1 + tanh\<^sup>2 1))\<close>.
\<close>

theorem gradients_not_derivatives:
  "snd (logistic_fd [1, 0] [0]) ! 1 = 1/2
   \<and> ((\<lambda>a. logistic_f [1, a] [0]) has_real_derivative (1/4)) (at 0)
   \<and> \<not> ((\<lambda>a. logistic_f [1, a] [0]) has_real_derivative
            (snd (logistic_fd [1, 0] [0]) ! 1)) (at 0)
   \<and> snd (arctangent_fd [1, 0] [0]) ! 1 = - 1/2
   \<and> ((\<lambda>a. arctangent_f [1, a] [0]) has_real_derivative (1/2)) (at 0)
   \<and> \<not> ((\<lambda>a. arctangent_f [1, a] [0]) has_real_derivative
            (snd (arctangent_fd [1, 0] [0]) ! 1)) (at 0)
   \<and> snd (algebraic_fd [1, 0] [0]) ! 1 = - 1/2
   \<and> ((\<lambda>a. algebraic_f [1, a] [0]) has_real_derivative (1/2)) (at 0)
   \<and> \<not> ((\<lambda>a. algebraic_f [1, a] [0]) has_real_derivative
            (snd (algebraic_fd [1, 0] [0]) ! 1)) (at 0)
   \<and> snd (gudermannian_fd [2, 0] [1]) ! 0 = - 1/2
   \<and> \<not> ((\<lambda>k. gudermannian_f [k, 0] [1]) has_real_derivative
            (snd (gudermannian_fd [2, 0] [1]) ! 0)) (at 2)"
proof -
  have l: "\<not> ((\<lambda>a. logistic_f [1, a] [0]) has_real_derivative
            (snd (logistic_fd [1, 0] [0]) ! 1)) (at 0)"
  proof
    assume "((\<lambda>a. logistic_f [1, a] [0]) has_real_derivative
            (snd (logistic_fd [1, 0] [0]) ! 1)) (at 0)"
    from DERIV_unique [OF this logistic_alpha_deriv] show False
      unfolding logistic_fd_alpha by simp
  qed
  have t: "\<not> ((\<lambda>a. arctangent_f [1, a] [0]) has_real_derivative
            (snd (arctangent_fd [1, 0] [0]) ! 1)) (at 0)"
  proof
    assume "((\<lambda>a. arctangent_f [1, a] [0]) has_real_derivative
            (snd (arctangent_fd [1, 0] [0]) ! 1)) (at 0)"
    from DERIV_unique [OF this arctangent_alpha_deriv] show False
      unfolding arctangent_fd_alpha by simp
  qed
  have a: "\<not> ((\<lambda>a. algebraic_f [1, a] [0]) has_real_derivative
            (snd (algebraic_fd [1, 0] [0]) ! 1)) (at 0)"
  proof
    assume "((\<lambda>a. algebraic_f [1, a] [0]) has_real_derivative
            (snd (algebraic_fd [1, 0] [0]) ! 1)) (at 0)"
    from DERIV_unique [OF this algebraic_alpha_deriv] show False
      unfolding algebraic_fd_alpha by simp
  qed
  have g: "\<not> ((\<lambda>k. gudermannian_f [k, 0] [1]) has_real_derivative
            (snd (gudermannian_fd [2, 0] [1]) ! 0)) (at 2)"
  proof
    assume "((\<lambda>k. gudermannian_f [k, 0] [1]) has_real_derivative
            (snd (gudermannian_fd [2, 0] [1]) ! 0)) (at 2)"
    from DERIV_unique [OF this gudermannian_k_deriv] gudermannian_k_differs show False
      unfolding gudermannian_fd_k by simp
  qed
  from l t a g logistic_fd_alpha logistic_alpha_deriv arctangent_fd_alpha
    arctangent_alpha_deriv algebraic_fd_alpha algebraic_alpha_deriv gudermannian_fd_k
  show ?thesis by blast
qed


section \<open>Loops and ECDF points\<close>

lemma for_each_append:
  "for_each body (is @ js) s =
     (case for_each body is s of None \<Rightarrow> None | Some s' \<Rightarrow> for_each body js s')"
  by (induction "is" arbitrary: s) (auto split: option.splits)

lemma for_each_snoc:
  "for_each body (is @ [j]) s =
     (case for_each body is s of None \<Rightarrow> None | Some s' \<Rightarrow> body j s')"
  by (simp add: for_each_append split: option.splits)

text \<open>The sample loop of \<^const>\<open>ecdf_y\<close>: which cells it has written after \<open>n\<close> rounds.\<close>

lemma ecdf_fold_length:
  "length (fold (\<lambda>i y. y[Suc i := g i]) is ys) = length ys"
  by (induction "is" arbitrary: ys) auto

lemma ecdf_fold_nth:
  "(fold (\<lambda>i y. y[Suc i := g i]) [0..<n] ys) ! j =
     (if 1 \<le> j \<and> j \<le> n \<and> j < length ys then g (j - 1) else ys ! j)"
proof (induction n)
  case 0
  then show ?case by auto
next
  case (Suc n)
  let ?xs = "fold (\<lambda>i y. y[Suc i := g i]) [0..<n] ys"
  have len: "length ?xs = length ys" by (rule ecdf_fold_length)
  have step: "fold (\<lambda>i y. y[Suc i := g i]) [0..<Suc n] ys = ?xs[Suc n := g n]"
    by simp
  show ?case
  proof (cases "j = Suc n")
    case True
    show ?thesis
    proof (cases "Suc n < length ys")
      case True
      with \<open>j = Suc n\<close> len show ?thesis unfolding step by simp
    next
      case False
      then have "?xs[Suc n := g n] = ?xs" using len by (intro list_update_beyond) simp
      with False \<open>j = Suc n\<close> Suc show ?thesis unfolding step by simp
    qed
  next
    case False
    then have "?xs[Suc n := g n] ! j = ?xs ! j" by simp
    with False Suc show ?thesis unfolding step by auto
  qed
qed

lemma length_ecdf_y: "length (ecdf_y l) = l + 2"
  by (simp add: ecdf_y_def ecdf_fold_length)

lemma ecdf_y_nth:
  "j < l + 2 \<Longrightarrow> ecdf_y l ! j = (if j = 0 then 1 else if j = l + 1 then 0 else 1 - real j / real (l + 1))"
  by (auto simp: ecdf_y_def ecdf_fold_length ecdf_fold_nth nth_list_update)

lemma ecdf_y_closed: "j < l + 2 \<Longrightarrow> ecdf_y l ! j = 1 - real j / real (l + 1)"
  by (auto simp: ecdf_y_nth)

lemma ecdf_y_mono: "i \<le> j \<Longrightarrow> j < l + 2 \<Longrightarrow> ecdf_y l ! j \<le> ecdf_y l ! i"
  by (simp add: ecdf_y_closed divide_right_mono)

text \<open>The copy loops of \<open>curveFitting\<close>: they succeed exactly when the source is long enough.\<close>

lemma loop_y:
  "n \<le> length ys \<Longrightarrow> n \<le> length acc \<Longrightarrow>
   for_each (\<lambda>i y. case rd ys i of None \<Rightarrow> None | Some v \<Rightarrow> wr y i (h v)) [0..<n] acc
     = Some (map (\<lambda>i. h (ys ! i)) [0..<n] @ drop n acc)"
proof (induction n)
  case 0
  then show ?case by simp
next
  case (Suc n)
  then have "for_each (\<lambda>i y. case rd ys i of None \<Rightarrow> None | Some v \<Rightarrow> wr y i (h v)) [0..<n] acc
     = Some (map (\<lambda>i. h (ys ! i)) [0..<n] @ drop n acc)" by simp
  moreover have "(map (\<lambda>i. h (ys ! i)) [0..<n] @ drop n acc)[n := h (ys ! n)]
      = map (\<lambda>i. h (ys ! i)) [0..<n] @ [h (ys ! n)] @ drop (Suc n) acc"
    using Suc.prems by (simp add: list_update_append upd_conv_take_nth_drop)
  ultimately show ?case using Suc.prems
    by (simp add: for_each_snoc rd_def wr_def)
qed

lemma loop_short:
  "length ys < n \<Longrightarrow>
   for_each (\<lambda>i y. case rd ys i of None \<Rightarrow> None | Some v \<Rightarrow> wr y i (h v)) [0..<n] acc = None"
proof (induction n)
  case 0
  then show ?case by simp
next
  case (Suc n)
  show ?case
  proof (cases "length ys < n")
    case True
    with Suc.IH show ?thesis by (simp add: for_each_snoc)
  next
    case False
    with Suc.prems have "length ys = n" by simp
    then show ?thesis by (simp add: for_each_snoc rd_def split: option.splits)
  qed
qed

lemma loop_x:
  "n \<le> length ys \<Longrightarrow> n \<le> length acc \<Longrightarrow> \<forall>r\<in>set acc. r \<noteq> [] \<Longrightarrow>
   for_each (\<lambda>i x. case rd ys i of None \<Rightarrow> None | Some v \<Rightarrow> wr2 x i 0 v) [0..<n] acc
     = Some (map (\<lambda>i. (acc ! i)[0 := ys ! i]) [0..<n] @ drop n acc)"
proof (induction n)
  case 0
  then show ?case by simp
next
  case (Suc n)
  let ?cur = "map (\<lambda>i. (acc ! i)[0 := ys ! i]) [0..<n] @ drop n acc"
  from Suc have ih: "for_each (\<lambda>i x. case rd ys i of None \<Rightarrow> None | Some v \<Rightarrow> wr2 x i 0 v) [0..<n] acc
     = Some ?cur" by simp
  have n: "n < length acc" "n < length ys" using Suc.prems by simp_all
  then have cur_n: "?cur ! n = acc ! n" by (simp add: nth_append)
  have ne: "acc ! n \<noteq> []" using Suc.prems(3) n by auto
  have "?cur[n := (acc ! n)[0 := ys ! n]]
      = map (\<lambda>i. (acc ! i)[0 := ys ! i]) [0..<n] @ [(acc ! n)[0 := ys ! n]] @ drop (Suc n) acc"
    using n by (simp add: list_update_append upd_conv_take_nth_drop)
  then show ?case using n ne cur_n ih
    by (simp add: for_each_snoc rd_def wr_def wr2_def)
qed

lemma curveFitting_arrays_Some:
  assumes "length yv \<le> length sd"
  shows "curveFitting_arrays sd yv
           = Some (map (\<lambda>v. [v]) sd, yv, map (\<lambda>i. sd ! i * sd ! i) [0..<length yv])"
proof -
  have x: "for_each (\<lambda>i x. case rd sd i of None \<Rightarrow> None | Some v \<Rightarrow> wr2 x i 0 v)
             [0..<length sd] (replicate (length sd) [0]) = Some (map (\<lambda>v. [v]) sd)"
    by (subst loop_x) (auto simp: map_nth intro: nth_equalityI)
  have y: "for_each (\<lambda>i y. case rd yv i of None \<Rightarrow> None | Some v \<Rightarrow> wr y i v)
             [0..<length yv] (replicate (length yv) 0) = Some yv"
    using loop_y [of "length yv" yv "replicate (length yv) 0" "\<lambda>v. v"]
    by (simp add: map_nth)
  have w: "for_each (\<lambda>i w. case rd sd i of None \<Rightarrow> None | Some v \<Rightarrow> wr w i (v * v))
             [0..<length yv] (replicate (length yv) 0) = Some (map (\<lambda>i. sd ! i * sd ! i) [0..<length yv])"
    using loop_y [of "length yv" sd "replicate (length yv) 0" "\<lambda>v. v * v"] assms
    by simp
  show ?thesis by (simp add: curveFitting_arrays_def x y w)
qed

lemma curveFitting_arrays_None:
  assumes "length sd < length yv"
  shows "curveFitting_arrays sd yv = None"
  using loop_short [OF assms, of "\<lambda>v. v * v" "replicate (length yv) 0"]
  by (simp add: curveFitting_arrays_def split: option.splits)


lemma length_augment: "length (augment d) = length d + 2"
  by (simp add: augment_def)

lemma augment_nth_sq:
  "i < length d + 2 \<Longrightarrow> map (\<lambda>i. augment d ! i * augment d ! i) [0..<length d + 2] ! i = (augment d ! i)\<^sup>2"
  by (simp add: power2_eq_square del: upt_Suc)

text \<open>The points built from a list \<open>d\<close> of distances, and the weights derived from them.\<close>

lemma ecdf_points_of:
  "augment d = 0 # d @ [1]
   \<and> length (augment d) = length d + 2
   \<and> length (ecdf_y (length d)) = length d + 2
   \<and> ecdf_y (length d) ! 0 = 1
   \<and> ecdf_y (length d) ! (length d + 1) = 0
   \<and> (\<forall>i. 1 \<le> i \<and> i \<le> length d \<longrightarrow>
         augment d ! i = d ! (i - 1)
         \<and> ecdf_y (length d) ! i = 1 - real i / real (length d + 1))
   \<and> (\<forall>i j. i \<le> j \<and> j < length d + 2 \<longrightarrow>
         ecdf_y (length d) ! j \<le> ecdf_y (length d) ! i)
   \<and> (\<exists>w. curveFitting_arrays (augment d) (ecdf_y (length d))
              = Some (map (\<lambda>v. [v]) (augment d), ecdf_y (length d), w)
          \<and> length w = length d + 2
          \<and> (\<forall>i < length d + 2. w ! i = (augment d ! i)\<^sup>2))"
proof -
  let ?l = "length d"
  have a: "augment d = 0 # d @ [1]" by (simp add: augment_def)
  have y0: "ecdf_y ?l ! 0 = 1" by (simp add: ecdf_y_nth)
  have yl: "ecdf_y ?l ! (?l + 1) = 0" by (simp add: ecdf_y_nth)
  have mid: "\<forall>i. 1 \<le> i \<and> i \<le> ?l \<longrightarrow>
         augment d ! i = d ! (i - 1) \<and> ecdf_y ?l ! i = 1 - real i / real (?l + 1)"
  proof (intro allI impI conjI)
    fix i assume i: "1 \<le> i \<and> i \<le> ?l"
    then obtain k where k: "i = Suc k" "k < ?l" by (cases i) auto
    then show "augment d ! i = d ! (i - 1)" by (simp add: a nth_append)
    from i show "ecdf_y ?l ! i = 1 - real i / real (?l + 1)" by (simp add: ecdf_y_closed)
  qed
  have mono: "\<forall>i j. i \<le> j \<and> j < ?l + 2 \<longrightarrow> ecdf_y ?l ! j \<le> ecdf_y ?l ! i"
    using ecdf_y_mono by blast
  have arr: "curveFitting_arrays (augment d) (ecdf_y ?l)
      = Some (map (\<lambda>v. [v]) (augment d), ecdf_y ?l,
              map (\<lambda>i. augment d ! i * augment d ! i) [0..<?l + 2])"
    using curveFitting_arrays_Some [of "ecdf_y ?l" "augment d"]
    by (simp add: length_ecdf_y length_augment)
  have w: "\<exists>w. curveFitting_arrays (augment d) (ecdf_y ?l)
              = Some (map (\<lambda>v. [v]) (augment d), ecdf_y ?l, w)
          \<and> length w = ?l + 2
          \<and> (\<forall>i < ?l + 2. w ! i = (augment d ! i)\<^sup>2)"
    unfolding arr using augment_nth_sq [of _ d] by (auto simp del: upt_Suc)
  show ?thesis
    using a y0 yl mid mono w length_ecdf_y [of ?l] length_augment [of d] by blast
qed


section \<open>The five fits and the choice of the best\<close>

text \<open>
  What a run of the five fit blocks that throws nothing has computed: each block
  was started from the coefficients the block before it left in the variable.
\<close>

lemma fits_Inr:
  assumes "curveFitting_fits solver x y w = Inr (cf, results, calls)"
  shows "\<exists>c1 e1 c2 e2 c3 e3 c4 e4 e5.
      solver logistic_f logistic_fd x y w [367 / 1000, 45 / 100] 0 0 = Inr (c1, e1)
    \<and> solver hyperbolic_f hyperbolic_fd x y w c1 0 0 = Inr (c2, e2)
    \<and> solver arctangent_f arctangent_fd x y w c2 0 0 = Inr (c3, e3)
    \<and> solver gudermannian_f gudermannian_fd x y w c3 0 0 = Inr (c4, e4)
    \<and> solver algebraic_f algebraic_fd x y w c4 0 0 = Inr (cf, e5)
    \<and> results = [\<lparr>c = c1, functionName = ''Logistic function'', wrmsError = e1\<rparr>,
                 \<lparr>c = c2, functionName = ''hyperbolic tangent function'', wrmsError = e2\<rparr>,
                 \<lparr>c = c3, functionName = ''arctangent function'', wrmsError = e3\<rparr>,
                 \<lparr>c = c4, functionName = ''gudermannian function'', wrmsError = e4\<rparr>,
                 \<lparr>c = cf, functionName = ''simple algebraic function'', wrmsError = e5\<rparr>]
    \<and> calls = [\<lparr>guess = [367 / 1000, 45 / 100], epsx = 0, maxits = 0\<rparr>,
               \<lparr>guess = c1, epsx = 0, maxits = 0\<rparr>,
               \<lparr>guess = c2, epsx = 0, maxits = 0\<rparr>,
               \<lparr>guess = c3, epsx = 0, maxits = 0\<rparr>,
               \<lparr>guess = c4, epsx = 0, maxits = 0\<rparr>]"
  using assms
  unfolding curveFitting_fits_def Let_def and_then_def fit_block_def
  by (auto split: sum.splits prod.splits)

lemma fits_results_nonempty:
  assumes "curveFitting_fits solver x y w = Inr (cf, results, calls)"
  shows "length results = 5" "results \<noteq> []"
  using fits_Inr [OF assms] by auto

text \<open>
  The selection loop keeps the first entry of least error: an entry replaces
  the current best only when its error is strictly smaller.
\<close>

lemma keep_first_min:
  "\<exists>i < length (b0 # rs).
      fold (\<lambda>r b. if e r < e b then r else b) rs b0 = (b0 # rs) ! i
    \<and> (\<forall>j < length (b0 # rs). e ((b0 # rs) ! i) \<le> e ((b0 # rs) ! j))
    \<and> (\<forall>j < i. e ((b0 # rs) ! i) < e ((b0 # rs) ! j))"
  for e :: "'a \<Rightarrow> real"
proof (induction rs rule: rev_induct)
  case Nil
  then show ?case by simp
next
  case (snoc r rs)
  let ?f = "\<lambda>r b. if e r < e b then r else b"
  let ?xs = "b0 # rs"
  from snoc obtain i where i: "i < length ?xs" "fold ?f rs b0 = ?xs ! i"
    "\<forall>j < length ?xs. e (?xs ! i) \<le> e (?xs ! j)" "\<forall>j < i. e (?xs ! i) < e (?xs ! j)"
    by blast
  have app: "b0 # rs @ [r] = ?xs @ [r]" by simp
  have nth_old: "\<And>j. j < length ?xs \<Longrightarrow> (?xs @ [r]) ! j = ?xs ! j"
    by (simp only: nth_append if_True)
  have nth_new: "(?xs @ [r]) ! length ?xs = r"
    by (simp only: nth_append_length)
  have fold_step: "fold ?f (rs @ [r]) b0 = ?f r (?xs ! i)"
    using i(2) by simp
  show ?case
  proof (cases "e r < e (?xs ! i)")
    case True
    have "fold ?f (rs @ [r]) b0 = (?xs @ [r]) ! length ?xs"
      using True fold_step nth_new by simp
    moreover have "\<forall>j < length (?xs @ [r]). e r \<le> e ((?xs @ [r]) ! j)"
    proof (intro allI impI)
      fix j assume "j < length (?xs @ [r])"
      then consider "j < length ?xs" | "j = length ?xs" by fastforce
      then show "e r \<le> e ((?xs @ [r]) ! j)"
      proof cases
        case 1
        with i(3) True nth_old [OF 1] show ?thesis by fastforce
      next
        case 2
        then show ?thesis using nth_new by simp
      qed
    qed
    moreover have "\<forall>j < length ?xs. e r < e ((?xs @ [r]) ! j)"
    proof (intro allI impI)
      fix j assume j: "j < length ?xs"
      with i(3) True nth_old [OF j] show "e r < e ((?xs @ [r]) ! j)" by fastforce
    qed
    ultimately show ?thesis
      unfolding app using nth_new
      by (intro exI [of _ "length ?xs"]) (simp del: nth_append_length fold_append length_Cons)
  next
    case False
    have "fold ?f (rs @ [r]) b0 = (?xs @ [r]) ! i"
      using False fold_step nth_old [OF i(1)] by simp
    moreover have "\<forall>j < length (?xs @ [r]). e ((?xs @ [r]) ! i) \<le> e ((?xs @ [r]) ! j)"
    proof (intro allI impI)
      fix j assume "j < length (?xs @ [r])"
      then consider "j < length ?xs" | "j = length ?xs" by fastforce
      then show "e ((?xs @ [r]) ! i) \<le> e ((?xs @ [r]) ! j)"
      proof cases
        case 1
        with i(3) nth_old [OF 1] nth_old [OF i(1)] show ?thesis by simp
      next
        case 2
        then show ?thesis using nth_new False nth_old [OF i(1)] by simp
      qed
    qed
    moreover have "\<forall>j < i. e ((?xs @ [r]) ! i) < e ((?xs @ [r]) ! j)"
    proof (intro allI impI)
      fix j assume j: "j < i"
      then have jl: "j < length ?xs" using i(1) by simp
      from i(4) j nth_old [OF jl] nth_old [OF i(1)]
      show "e ((?xs @ [r]) ! i) < e ((?xs @ [r]) ! j)" by simp
    qed
    moreover have "i < length (?xs @ [r])" using i(1) by simp
    ultimately show ?thesis unfolding app by blast
  qed
qed

lemma select_best_first_min:
  assumes "results \<noteq> []"
  shows "\<exists>i < length results.
      select_best results = Some (results ! i)
    \<and> (\<forall>j < length results. wrmsError (results ! i) \<le> wrmsError (results ! j))
    \<and> (\<forall>j < i. wrmsError (results ! i) < wrmsError (results ! j))"
proof -
  let ?e = wrmsError
  let ?r0 = "results ! 0"
  let ?xs = "?r0 # results"
  have sb: "select_best results
      = Some (fold (\<lambda>r b. if ?e r < ?e b then r else b) results ?r0)"
    using assms by (simp add: select_best_def rd_def)
  from keep_first_min [of ?r0 results ?e] obtain i where i: "i < length ?xs"
    "fold (\<lambda>r b. if ?e r < ?e b then r else b) results ?r0 = ?xs ! i"
    "\<forall>j < length ?xs. ?e (?xs ! i) \<le> ?e (?xs ! j)" "\<forall>j < i. ?e (?xs ! i) < ?e (?xs ! j)"
    by blast
  have all: "\<forall>j < length results. ?e (?xs ! i) \<le> ?e (results ! j)"
  proof (intro allI impI)
    fix j assume "j < length results"
    then have "Suc j < length ?xs" by simp
    with i(3) have "?e (?xs ! i) \<le> ?e (?xs ! Suc j)" by blast
    then show "?e (?xs ! i) \<le> ?e (results ! j)" by simp
  qed
  show ?thesis
  proof (cases i)
    case 0
    then have "?xs ! i = results ! 0" by simp
    with sb i(2) all assms show ?thesis by (intro exI [of _ 0]) simp
  next
    case (Suc k)
    then have xi: "?xs ! i = results ! k" by simp
    have k: "k < length results" using i(1) Suc by simp
    have "\<forall>j < k. ?e (results ! k) < ?e (results ! j)"
    proof (intro allI impI)
      fix j assume "j < k"
      then have "Suc j < i" using Suc by simp
      with i(4) have "?e (?xs ! i) < ?e (?xs ! Suc j)" by blast
      then show "?e (results ! k) < ?e (results ! j)" using xi by simp
    qed
    with sb i(2) all xi k show ?thesis by (intro exI [of _ k]) simp
  qed
qed

section \<open>curveFitting stays in bounds\<close>

text \<open>
  The outcome of \<open>curveFitting\<close> does not depend on the shared state: it is
  undefined when the weight loop reads past the end of \<open>sorted_distances\<close>, an
  exception when a fit throws, and a normal return otherwise.
\<close>

lemma curveFitting_outcome:
  "fst (curveFitting solver sd yv name st) =
     (if length sd < length yv then Undefined_access
      else case curveFitting_fits solver (map (\<lambda>v. [v]) sd) yv
                  (map (\<lambda>i. sd ! i * sd ! i) [0..<length yv]) of
             Inl e \<Rightarrow> Threw e | Inr v \<Rightarrow> Returned)"
proof (cases "length sd < length yv")
  case True
  then show ?thesis by (simp add: curveFitting_def curveFitting_arrays_None)
next
  case False
  then have le: "length yv \<le> length sd" by simp
  show ?thesis
  proof (cases "curveFitting_fits solver (map (\<lambda>v. [v]) sd) yv
                  (map (\<lambda>i. sd ! i * sd ! i) [0..<length yv])")
    case (Inl e)
    with False show ?thesis
      by (simp add: curveFitting_def curveFitting_arrays_Some [OF le])
  next
    case (Inr v)
    obtain cf results calls where v: "v = (cf, results, calls)" by (cases v) auto
    from fits_results_nonempty(2) [OF Inr [unfolded v]] have "results \<noteq> []" .
    from select_best_first_min [OF this] obtain b where "select_best results = Some b"
      by blast
    with False Inr v show ?thesis
      by (simp add: curveFitting_def curveFitting_arrays_Some [OF le])
  qed
qed

subsection \<open>A run on three points\<close>

text \<open>
  One class with the single sample \<open>1/2\<close>: the arrays and the five fits that the
  solver above produces on them.
\<close>

lemma demo_fits:
  "curveFitting_fits demo_solver [[0], [1/2], [1]] [1, 1/2, 0] [0, 1/4, 1] =
     Inr ([5367 / 1000, 45 / 100],
          [\<lparr>c = [1367 / 1000, 45 / 100], functionName = ''Logistic function'',
              wrmsError = (367 / 1000 - 2)\<^sup>2\<rparr>,
           \<lparr>c = [2367 / 1000, 45 / 100], functionName = ''hyperbolic tangent function'',
              wrmsError = (1367 / 1000 - 2)\<^sup>2\<rparr>,
           \<lparr>c = [3367 / 1000, 45 / 100], functionName = ''arctangent function'',
              wrmsError = (2367 / 1000 - 2)\<^sup>2\<rparr>,
           \<lparr>c = [4367 / 1000, 45 / 100], functionName = ''gudermannian function'',
              wrmsError = (3367 / 1000 - 2)\<^sup>2\<rparr>,
           \<lparr>c = [5367 / 1000, 45 / 100], functionName = ''simple algebraic function'',
              wrmsError = (4367 / 1000 - 2)\<^sup>2\<rparr>],
          [\<lparr>guess = [367 / 1000, 45 / 100], epsx = 0, maxits = 0\<rparr>,
           \<lparr>guess = [1367 / 1000, 45 / 100], epsx = 0, maxits = 0\<rparr>,
           \<lparr>guess = [2367 / 1000, 45 / 100], epsx = 0, maxits = 0\<rparr>,
           \<lparr>guess = [3367 / 1000, 45 / 100], epsx = 0, maxits = 0\<rparr>,
           \<lparr>guess = [4367 / 1000, 45 / 100], epsx = 0, maxits = 0\<rparr>])"
  by (simp add: curveFitting_fits_def Let_def and_then_def fit_block_def demo_solver_def)

lemma demo_arrays:
  "curveFitting_arrays [0, 1/2, 1] [1, 1/2, 0] = Some ([[0], [1/2], [1]], [1, 1/2, 0], [0, 1/4, 1])"
  using curveFitting_arrays_Some [of "[1, 1/2, 0]" "[0, 1/2, 1]"]
  by (simp add: upt_rec)

text \<open>
  Claim C10. The weight loop of \<open>curveFitting\<close> reads \<open>sorted_distances[i]\<close> for
  every \<open>i < y_values.size()\<close>, so a call has an access out of bounds exactly when
  \<open>sorted_distances\<close> is shorter than \<open>y_values\<close> (whatever the solver does). Every
  job that \<open>fitClasses\<close> launches for a class of \<open>l\<close> samples gets two vectors of
  length \<open>l + 2\<close>, so no access in it is out of bounds.
\<close>

theorem curveFitting_in_bounds:
  "(fst (curveFitting solver sd yv name st) = Undefined_access) = (length sd < length yv)
   \<and> (curveFitting_arrays sd yv = None) = (length sd < length yv)
   \<and> (\<forall>d pair' name' sd' yv'. launch (name, d) = (pair', name', sd', yv') \<longrightarrow>
         length sd' = length d + 2 \<and> length yv' = length d + 2
         \<and> curveFitting_arrays sd' yv' \<noteq> None
         \<and> fst (curveFitting solver sd' yv' name' st) \<noteq> Undefined_access)"
proof -
  have a: "(fst (curveFitting solver sd yv name st) = Undefined_access) = (length sd < length yv)"
    for sd yv name
    by (simp add: curveFitting_outcome split: sum.splits)
  have b: "(curveFitting_arrays sd yv = None) = (length sd < length yv)" for sd yv
  proof (cases "length sd < length yv")
    case True
    then show ?thesis by (simp add: curveFitting_arrays_None)
  next
    case False
    then have "length yv \<le> length sd" by simp
    from curveFitting_arrays_Some [OF this] False show ?thesis by simp
  qed
  have c: "length sd' = length d + 2 \<and> length yv' = length d + 2
         \<and> curveFitting_arrays sd' yv' \<noteq> None
         \<and> fst (curveFitting solver sd' yv' name' st) \<noteq> Undefined_access"
    if "launch (name, d) = (pair', name', sd', yv')" for d pair' name' sd' yv'
  proof -
    from that have "sd' = augment d" "yv' = ecdf_y (length d)"
      by (simp_all add: launch_def Let_def)
    then have "length sd' = length d + 2" "length yv' = length d + 2"
      by (simp_all add: length_augment length_ecdf_y)
    then show ?thesis using a [of sd' yv' name'] b [of sd' yv'] by simp
  qed
  from a b c show ?thesis by blast
qed

theorem curveFitting_in_bounds_witness:
  "fst (curveFitting demo_solver [0] [1, 0] ''A'' \<lparr>bestFit = [], cout = []\<rparr>) = Undefined_access
   \<and> curveFitting_arrays [0] [1, 0] = None
   \<and> length (augment [1/2]) = 3 \<and> length (ecdf_y 1) = 3
   \<and> curveFitting_arrays (augment [1/2]) (ecdf_y 1) \<noteq> None
   \<and> fst (curveFitting demo_solver (augment [1/2]) (ecdf_y 1) ''A'' \<lparr>bestFit = [], cout = []\<rparr>)
       \<noteq> Undefined_access"
proof -
  note t = curveFitting_in_bounds [of demo_solver "[0]" "[1, 0]" "''A''" "\<lparr>bestFit = [], cout = []\<rparr>"]
  have l: "launch (''A'', [1/2]) = ((''A'', augment [1/2]), ''A'', augment [1/2], ecdf_y 1)"
    by (simp add: launch_def Let_def)
  from t have a: "fst (curveFitting demo_solver [0] [1, 0] ''A'' \<lparr>bestFit = [], cout = []\<rparr>) = Undefined_access"
    "curveFitting_arrays [0] [1, 0] = None"
    by simp_all
  from t l have "length (augment [1/2]) = length [1/2 :: real] + 2 \<and> length (ecdf_y 1) = length [1/2 :: real] + 2
         \<and> curveFitting_arrays (augment [1/2]) (ecdf_y 1) \<noteq> None
         \<and> fst (curveFitting demo_solver (augment [1/2]) (ecdf_y 1) ''A'' \<lparr>bestFit = [], cout = []\<rparr>) \<noteq> Undefined_access"
    by blast
  with a show ?thesis by simp
qed

section \<open>The best fit\<close>

text \<open>
  Claim C5. When the five fits of a class complete, \<open>results\<close> holds exactly the
  five Fit Results in the order logistic, hyperbolic tangent, arctangent,
  Gudermannian, simple algebraic; the fit that is selected, printed as best and
  stored for the class is the one at an index \<open>i\<close> whose error is least among the
  five and strictly smaller than every error before \<open>i\<close>: the first of least
  error. (Errors are reals here; a NaN is outside the model.)
\<close>

theorem best_fit_is_first_minimum:
  assumes "curveFitting_arrays sd yv = Some (x, y, w)"
    and "curveFitting_fits solver x y w = Inr (cf, results, calls)"
  shows "map functionName results =
           [''Logistic function'', ''hyperbolic tangent function'', ''arctangent function'',
            ''gudermannian function'', ''simple algebraic function'']
   \<and> (\<exists>i<5. select_best results = Some (results ! i)
        \<and> (\<forall>j<5. wrmsError (results ! i) \<le> wrmsError (results ! j))
        \<and> (\<forall>j<i. wrmsError (results ! i) < wrmsError (results ! j))
        \<and> curveFitting solver sd yv name st =
            (Returned,
             \<lparr>bestFit = AList.update name (results ! i) (bestFit st),
              cout = cout st @ [Header name] @ map Candidate results @ [Best (results ! i)]\<rparr>))"
proof -
  from fits_Inr [OF assms(2)] have names: "map functionName results =
           [''Logistic function'', ''hyperbolic tangent function'', ''arctangent function'',
            ''gudermannian function'', ''simple algebraic function'']"
    by auto
  have len: "length results = 5" and ne: "results \<noteq> []"
    using fits_results_nonempty [OF assms(2)] by simp_all
  from select_best_first_min [OF ne] obtain i where i: "i < length results"
    "select_best results = Some (results ! i)"
    "\<forall>j < length results. wrmsError (results ! i) \<le> wrmsError (results ! j)"
    "\<forall>j < i. wrmsError (results ! i) < wrmsError (results ! j)"
    by blast
  have run: "curveFitting solver sd yv name st =
            (Returned,
             \<lparr>bestFit = AList.update name (results ! i) (bestFit st),
              cout = cout st @ [Header name] @ map Candidate results @ [Best (results ! i)]\<rparr>)"
    by (simp add: curveFitting_def assms i(2))
  from i run show ?thesis unfolding len using names by blast
qed

theorem best_fit_is_first_minimum_witness:
  "curveFitting demo_solver [0, 1/2, 1] [1, 1/2, 0] ''A'' \<lparr>bestFit = [], cout = []\<rparr> =
     (Returned,
      \<lparr>bestFit = [(''A'', \<lparr>c = [3367 / 1000, 45 / 100], functionName = ''arctangent function'',
                            wrmsError = (2367 / 1000 - 2)\<^sup>2\<rparr>)],
       cout = [Header ''A''] @ map Candidate (fst (snd (projr
                 (curveFitting_fits demo_solver [[0], [1/2], [1]] [1, 1/2, 0] [0, 1/4, 1]))))
              @ [Best \<lparr>c = [3367 / 1000, 45 / 100], functionName = ''arctangent function'',
                       wrmsError = (2367 / 1000 - 2)\<^sup>2\<rparr>]\<rparr>)"
proof -
  let ?R = "fst (snd (projr
                 (curveFitting_fits demo_solver [[0], [1/2], [1]] [1, 1/2, 0] [0, 1/4, 1])))"
  have sel: "select_best ?R = Some (?R ! 2)"
    unfolding demo_fits by (simp add: select_best_def rd_def power2_eq_square)
  have R2: "?R ! 2 = \<lparr>c = [3367 / 1000, 45 / 100], functionName = ''arctangent function'',
                            wrmsError = (2367 / 1000 - 2)\<^sup>2\<rparr>"
    unfolding demo_fits by simp
  have fits: "curveFitting_fits demo_solver [[0], [1/2], [1]] [1, 1/2, 0] [0, 1/4, 1]
      = Inr ([5367 / 1000, 45 / 100], ?R, snd (snd (projr
                 (curveFitting_fits demo_solver [[0], [1/2], [1]] [1, 1/2, 0] [0, 1/4, 1]))))"
    unfolding demo_fits by simp
  from best_fit_is_first_minimum [OF demo_arrays fits, of "''A''" "\<lparr>bestFit = [], cout = []\<rparr>"]
  obtain i where "select_best ?R = Some (?R ! i)"
    and "curveFitting demo_solver [0, 1/2, 1] [1, 1/2, 0] ''A'' \<lparr>bestFit = [], cout = []\<rparr> =
            (Returned,
             \<lparr>bestFit = AList.update ''A'' (?R ! i) (bestFit \<lparr>bestFit = [], cout = []\<rparr>),
              cout = cout \<lparr>bestFit = [], cout = []\<rparr> @ [Header ''A''] @ map Candidate ?R
                      @ [Best (?R ! i)]\<rparr>)"
    by blast
  with sel have "curveFitting demo_solver [0, 1/2, 1] [1, 1/2, 0] ''A'' \<lparr>bestFit = [], cout = []\<rparr> =
            (Returned,
             \<lparr>bestFit = AList.update ''A'' (?R ! 2) (bestFit \<lparr>bestFit = [], cout = []\<rparr>),
              cout = cout \<lparr>bestFit = [], cout = []\<rparr> @ [Header ''A''] @ map Candidate ?R
                      @ [Best (?R ! 2)]\<rparr>)"
    by simp
  then show ?thesis unfolding R2 by simp
qed

section \<open>Initial guesses\<close>

text \<open>
  Claim C2 says that all five fits of a class start from the same initial guess
  \<open>(0.367, 0.45)\<close>. The source has one variable \<open>c\<close>: \<open>lsfitresults\<close> writes the
  fitted coefficients into it and the next \<open>lsfitcreatewfg\<close> reads it. With the
  solver above, which moves the first coefficient by one, the five fits start
  from \<open>0.367\<close>, \<open>1.367\<close>, \<open>2.367\<close>, \<open>3.367\<close>, \<open>4.367\<close>: the claim fails.
\<close>

theorem fits_fixed_guess_counterexample:
  "isl (curveFitting_fits demo_solver [[0], [1/2], [1]] [1, 1/2, 0] [0, 1/4, 1]) = False
   \<and> map guess (snd (snd (projr
         (curveFitting_fits demo_solver [[0], [1/2], [1]] [1, 1/2, 0] [0, 1/4, 1]))))
       = [[367 / 1000, 45 / 100], [1367 / 1000, 45 / 100], [2367 / 1000, 45 / 100],
          [3367 / 1000, 45 / 100], [4367 / 1000, 45 / 100]]
   \<and> map guess (snd (snd (projr
         (curveFitting_fits demo_solver [[0], [1/2], [1]] [1, 1/2, 0] [0, 1/4, 1]))))
       \<noteq> [[367 / 1000, 45 / 100], [367 / 1000, 45 / 100], [367 / 1000, 45 / 100],
          [367 / 1000, 45 / 100], [367 / 1000, 45 / 100]]"
  unfolding demo_fits by simp

text \<open>
  Claim C2, amended. When the five fits complete, the first one (logistic)
  starts from \<open>(0.367, 0.45)\<close>, each later one starts from the coefficients fitted
  by the one before it, and all five are run with \<open>epsx = 0\<close> and \<open>maxits = 0\<close>.
\<close>

theorem fits_chain_guesses:
  assumes "curveFitting_fits solver x y w = Inr (cf, results, calls)"
  shows "length calls = 5 \<and> length results = 5
   \<and> guess (calls ! 0) = [367 / 1000, 45 / 100]
   \<and> (\<forall>i<4. guess (calls ! Suc i) = c (results ! i))
   \<and> (\<forall>k<5. epsx (calls ! k) = 0 \<and> maxits (calls ! k) = 0)"
proof -
  from fits_Inr [OF assms] obtain c1 e1 c2 e2 c3 e3 c4 e4 e5 where
    r: "results = [\<lparr>c = c1, functionName = ''Logistic function'', wrmsError = e1\<rparr>,
                 \<lparr>c = c2, functionName = ''hyperbolic tangent function'', wrmsError = e2\<rparr>,
                 \<lparr>c = c3, functionName = ''arctangent function'', wrmsError = e3\<rparr>,
                 \<lparr>c = c4, functionName = ''gudermannian function'', wrmsError = e4\<rparr>,
                 \<lparr>c = cf, functionName = ''simple algebraic function'', wrmsError = e5\<rparr>]"
    and k: "calls = [\<lparr>guess = [367 / 1000, 45 / 100], epsx = 0, maxits = 0\<rparr>,
               \<lparr>guess = c1, epsx = 0, maxits = 0\<rparr>,
               \<lparr>guess = c2, epsx = 0, maxits = 0\<rparr>,
               \<lparr>guess = c3, epsx = 0, maxits = 0\<rparr>,
               \<lparr>guess = c4, epsx = 0, maxits = 0\<rparr>]"
    by blast
  have less4: "i < 4 \<longleftrightarrow> i = 0 \<or> i = 1 \<or> i = 2 \<or> i = 3" for i :: nat by auto
  have less5: "i < 5 \<longleftrightarrow> i = 0 \<or> i = 1 \<or> i = 2 \<or> i = 3 \<or> i = 4" for i :: nat by auto
  have g: "\<forall>i<4. guess (calls ! Suc i) = c (results ! i)"
    unfolding r k less4 by auto
  have t: "\<forall>k<5. epsx (calls ! k) = 0 \<and> maxits (calls ! k) = 0"
    unfolding k less5 by auto
  from g t show ?thesis by (simp add: r k)
qed

theorem fits_chain_guesses_witness:
  "guess ((snd (snd (projr
       (curveFitting_fits demo_solver [[0], [1/2], [1]] [1, 1/2, 0] [0, 1/4, 1])))) ! 0)
     = [367 / 1000, 45 / 100]
   \<and> guess ((snd (snd (projr
       (curveFitting_fits demo_solver [[0], [1/2], [1]] [1, 1/2, 0] [0, 1/4, 1])))) ! Suc 2)
     = c ((fst (snd (projr
       (curveFitting_fits demo_solver [[0], [1/2], [1]] [1, 1/2, 0] [0, 1/4, 1])))) ! 2)
   \<and> guess ((snd (snd (projr
       (curveFitting_fits demo_solver [[0], [1/2], [1]] [1, 1/2, 0] [0, 1/4, 1])))) ! Suc 2)
     = [3367 / 1000, 45 / 100]
   \<and> epsx ((snd (snd (projr
       (curveFitting_fits demo_solver [[0], [1/2], [1]] [1, 1/2, 0] [0, 1/4, 1])))) ! 4) = 0
   \<and> maxits ((snd (snd (projr
       (curveFitting_fits demo_solver [[0], [1/2], [1]] [1, 1/2, 0] [0, 1/4, 1])))) ! 4) = 0"
proof -
  let ?F = "curveFitting_fits demo_solver [[0], [1/2], [1]] [1, 1/2, 0] [0, 1/4, 1]"
  let ?R = "fst (snd (projr ?F))"
  let ?K = "snd (snd (projr ?F))"
  have F: "?F = Inr ([5367 / 1000, 45 / 100], ?R, ?K)"
    unfolding demo_fits by simp
  note t = fits_chain_guesses [OF F]
  from t have g0: "guess (?K ! 0) = [367 / 1000, 45 / 100]" by blast
  from t have "\<forall>i<4. guess (?K ! Suc i) = c (?R ! i)" by blast
  then have "2 < (4::nat) \<longrightarrow> guess (?K ! Suc 2) = c (?R ! 2)" by (rule spec)
  then have a: "guess (?K ! Suc 2) = c (?R ! 2)" by simp
  have r2: "c (?R ! 2) = [3367 / 1000, 45 / 100]" unfolding demo_fits by simp
  from t have "\<forall>k<5. epsx (?K ! k) = 0 \<and> maxits (?K ! k) = 0" by blast
  then have "4 < (5::nat) \<longrightarrow> epsx (?K ! 4) = 0 \<and> maxits (?K ! 4) = 0" by (rule spec)
  then have b: "epsx (?K ! 4) = 0 \<and> maxits (?K ! 4) = 0" by simp
  from g0 a b r2 show ?thesis by simp
qed

section \<open>Jobs and the shared state\<close>

lemma curveFitting_cases:
  "(\<exists>e. \<forall>s. curveFitting solver sd yv n s = (Threw e, s))
   \<or> (\<forall>s. curveFitting solver sd yv n s = (Undefined_access, s))
   \<or> (\<exists>best results. \<forall>s. curveFitting solver sd yv n s =
          (Returned, \<lparr>bestFit = AList.update n best (bestFit s),
                      cout = cout s @ [Header n] @ map Candidate results @ [Best best]\<rparr>))"
proof (cases "curveFitting_arrays sd yv")
  case None
  then show ?thesis by (simp add: curveFitting_def)
next
  case (Some a)
  obtain x y w where a: "a = (x, y, w)" by (cases a) auto
  show ?thesis
  proof (cases "curveFitting_fits solver x y w")
    case (Inl e)
    with Some a show ?thesis by (simp add: curveFitting_def)
  next
    case (Inr v)
    obtain cf results calls where v: "v = (cf, results, calls)" by (cases v) auto
    show ?thesis
    proof (cases "select_best results")
      case None
      with Some a Inr v show ?thesis by (simp add: curveFitting_def)
    next
      case (Some best)
      with \<open>curveFitting_arrays sd yv = Some a\<close> a Inr v
      have "\<forall>s. curveFitting solver sd yv n s =
          (Returned, \<lparr>bestFit = AList.update n best (bestFit s),
                      cout = cout s @ [Header n] @ map Candidate results @ [Best best]\<rparr>)"
        by (simp add: curveFitting_def)
      then show ?thesis by blast
    qed
  qed
qed

lemma run_job_cases:
  "(\<forall>s. run_job solver jobs n s = s \<and> job_outcome solver jobs n \<noteq> Returned)
   \<or> (\<forall>s. run_job solver jobs n s = s \<and> map_of jobs n = None)
   \<or> (\<exists>best results. job_outcome solver jobs n = Returned \<and> map_of jobs n \<noteq> None \<and>
        (\<forall>s. run_job solver jobs n s =
          \<lparr>bestFit = AList.update n best (bestFit s),
           cout = cout s @ [Header n] @ map Candidate results @ [Best best]\<rparr>))"
proof (cases "map_of jobs n")
  case None
  then show ?thesis by (simp add: run_job_def)
next
  case (Some p)
  obtain sd yv where p: "p = (sd, yv)" by (cases p) auto
  from curveFitting_cases [of solver sd yv n] Some p show ?thesis
    unfolding run_job_def job_outcome_def by fastforce
qed

lemma run_job_table:
  "bestFit (run_job solver jobs n s) = bestFit s
   \<or> (\<exists>best. bestFit (run_job solver jobs n s) = AList.update n best (bestFit s))"
  using run_job_cases [of solver jobs n] by fastforce

lemma run_job_other: "k \<noteq> n \<Longrightarrow> map_of (bestFit (run_job solver jobs n s)) k = map_of (bestFit s) k"
  using run_job_table [of solver jobs n s] by (auto simp: update_conv')

lemma run_job_keys: "fst ` set (bestFit s) \<subseteq> fst ` set (bestFit (run_job solver jobs n s))"
  using run_job_table [of solver jobs n s] set_map [of fst "bestFit s"]
  by (auto simp: update_keys simp flip: set_map)

lemma run_job_distinct:
  "distinct (map fst (bestFit s)) \<Longrightarrow> distinct (map fst (bestFit (run_job solver jobs n s)))"
  using run_job_table [of solver jobs n s] by (auto simp: distinct_update)

lemma run_jobs_other:
  "k \<notin> set ns \<Longrightarrow> map_of (bestFit (fold (run_job solver jobs) ns s)) k = map_of (bestFit s) k"
  by (induction ns arbitrary: s) (auto simp: run_job_other)

lemma run_jobs_keys:
  "fst ` set (bestFit s) \<subseteq> fst ` set (bestFit (fold (run_job solver jobs) ns s))"
proof (induction ns arbitrary: s)
  case Nil
  then show ?case by simp
next
  case (Cons n ns)
  have "fst ` set (bestFit s) \<subseteq> fst ` set (bestFit (run_job solver jobs n s))"
    by (rule run_job_keys)
  also have "\<dots> \<subseteq> fst ` set (bestFit (fold (run_job solver jobs) ns (run_job solver jobs n s)))"
    by (rule Cons)
  finally show ?case by simp
qed

lemma run_jobs_distinct:
  "distinct (map fst (bestFit s)) \<Longrightarrow>
   distinct (map fst (bestFit (fold (run_job solver jobs) ns s)))"
  by (induction ns arbitrary: s) (auto simp: run_job_distinct)


lemma join_loop_first_failure:
  "\<forall>k \<in> set before. \<forall>e. result k \<noteq> Threw e \<Longrightarrow> result n = Threw e \<Longrightarrow>
   join_loop result (before @ n # rest) js = (1, js @ before @ [n], [Failure n (msg e)])"
proof (induction before arbitrary: js)
  case Nil
  then show ?case by simp
next
  case (Cons b before)
  then show ?case by (cases "result b") auto
qed

lemma fitClasses_table:
  "bestFit (state_after (fitClasses solver threads_order finished sorted_distances st))
     = bestFit (fold (run_job solver (map (snd \<circ> launch) sorted_distances)) finished st)"
  by (simp add: fitClasses_def Let_def split: prod.splits)

lemma launch_job: "snd (launch (n, d)) = (n, augment d, ecdf_y (length d))"
  by (simp add: launch_def Let_def)

lemma fitClasses_join:
  "join_loop (job_outcome solver (map (snd \<circ> launch) sorted_distances)) threads_order []
     = (r, js, printed) \<Longrightarrow>
   ended (fitClasses solver threads_order finished sorted_distances st)
       = (if filter (\<lambda>n. n \<notin> set js) threads_order = [] then Returns r else Terminates)
   \<and> joined (fitClasses solver threads_order finished sorted_distances st) = js
   \<and> unjoined (fitClasses solver threads_order finished sorted_distances st)
       = filter (\<lambda>n. n \<notin> set js) threads_order
   \<and> cout (state_after (fitClasses solver threads_order finished sorted_distances st))
       = cout (fold (run_job solver (map (snd \<circ> launch) sorted_distances)) finished st) @ printed"
  by (simp add: fitClasses_def Let_def)

lemma fitClasses_launched:
  "launched (fitClasses solver threads_order finished sorted_distances st)
     = map (snd \<circ> launch) sorted_distances"
  "input_after (fitClasses solver threads_order finished sorted_distances st)
     = map (fst \<circ> launch) sorted_distances"
  by (simp_all add: fitClasses_def Let_def split: prod.splits)

text \<open>
  Claim C4. For every class of the input, with \<open>l\<close> distances \<open>d\<close> (of any length,
  \<open>l = 0\<close> included), \<open>fitClasses\<close> starts one job, in the position of the class,
  under the name of the class, with the vectors \<open>X\<close> and \<open>Y\<close>, and leaves \<open>X\<close> in
  the caller's map: \<open>X\<close> is \<open>d\<close> with \<open>0\<close> put in front and \<open>1\<close> behind, \<open>X\<close>, \<open>Y\<close> and
  the weights \<open>W\<close> have length \<open>l + 2\<close>, \<open>Y[0] = 1\<close>, \<open>Y[l + 1] = 0\<close>, the \<open>j\<close>-th
  original sample (counted from 1) keeps its place and has \<open>Y[j] = 1 - j/(l + 1)\<close>,
  \<open>Y\<close> never increases, and the arrays that \<open>curveFitting\<close> builds from the job's
  two vectors are \<open>X\<close>, \<open>Y\<close> and \<open>W[j] = X[j]\<^sup>2\<close> at every point, the two boundary
  points included. Sortedness and sign of the distances are not needed.
\<close>

theorem ecdf_points:
  "length (launched (fitClasses solver threads_order finished sorted_distances st))
     = length sorted_distances
   \<and> (\<forall>i < length sorted_distances. \<forall>name d name' X Y.
         sorted_distances ! i = (name, d)
         \<and> launched (fitClasses solver threads_order finished sorted_distances st) ! i
             = (name', X, Y) \<longrightarrow>
           name' = name
           \<and> input_after (fitClasses solver threads_order finished sorted_distances st) ! i
               = (name, X)
           \<and> X = 0 # d @ [1]
           \<and> length X = length d + 2
           \<and> length Y = length d + 2
           \<and> Y ! 0 = 1
           \<and> Y ! (length d + 1) = 0
           \<and> (\<forall>j. 1 \<le> j \<and> j \<le> length d \<longrightarrow>
                 X ! j = d ! (j - 1) \<and> Y ! j = 1 - real j / real (length d + 1))
           \<and> (\<forall>j k. j \<le> k \<and> k < length d + 2 \<longrightarrow> Y ! k \<le> Y ! j)
           \<and> (\<exists>w. curveFitting_arrays X Y = Some (map (\<lambda>v. [v]) X, Y, w)
                  \<and> length w = length d + 2
                  \<and> (\<forall>j < length d + 2. w ! j = (X ! j)\<^sup>2)))"
proof (intro conjI allI impI)
  let ?R = "fitClasses solver threads_order finished sorted_distances st"
  show "length (launched ?R) = length sorted_distances"
    by (simp add: fitClasses_launched)
  fix i name d name' X Y
  assume i: "i < length sorted_distances"
    and p: "sorted_distances ! i = (name, d) \<and> launched ?R ! i = (name', X, Y)"
  from i p have "snd (launch (name, d)) = (name', X, Y)"
    by (auto simp: fitClasses_launched)
  then have job: "name' = name" "X = augment d" "Y = ecdf_y (length d)"
    by (simp_all add: launch_def Let_def)
  from i p have inp: "input_after ?R ! i = (name, augment d)"
    by (auto simp: fitClasses_launched launch_def Let_def)
  note e = ecdf_points_of [of d]
  show "name' = name" by (rule job)
  show "input_after ?R ! i = (name, X)" using inp job by simp
  show "X = 0 # d @ [1]" using e job by simp
  show "length X = length d + 2" using e job by simp
  show "length Y = length d + 2" using e job by simp
  show "Y ! 0 = 1" using e job by simp
  show "Y ! (length d + 1) = 0" using e job by simp
  show "\<exists>w. curveFitting_arrays X Y = Some (map (\<lambda>v. [v]) X, Y, w)
          \<and> length w = length d + 2 \<and> (\<forall>j < length d + 2. w ! j = (X ! j)\<^sup>2)"
    unfolding job using e by blast
  show "Y ! k \<le> Y ! j" if "j \<le> k \<and> k < length d + 2" for j k
    unfolding job using e that by blast
  show "X ! j = d ! (j - 1)" if "1 \<le> j \<and> j \<le> length d" for j
    unfolding job using e that by blast
  show "Y ! j = 1 - real j / real (length d + 1)" if "1 \<le> j \<and> j \<le> length d" for j
    unfolding job using e that by blast
qed

theorem ecdf_points_witness:
  "launched (fitClasses demo_solver [''A''] [''A''] [(''A'', [1/10, 3/10, 3/10, 1/2, 9/10])]
              \<lparr>bestFit = [], cout = []\<rparr>) ! 0
     = (''A'', [0, 1/10, 3/10, 3/10, 1/2, 9/10, 1], ecdf_y 5)
   \<and> input_after (fitClasses demo_solver [''A''] [''A''] [(''A'', [1/10, 3/10, 3/10, 1/2, 9/10])]
              \<lparr>bestFit = [], cout = []\<rparr>) ! 0
     = (''A'', [0, 1/10, 3/10, 3/10, 1/2, 9/10, 1])
   \<and> ecdf_y 5 ! 0 = 1
   \<and> ecdf_y 5 ! 2 = 2/3
   \<and> ecdf_y 5 ! 6 = 0
   \<and> ecdf_y 5 ! 4 \<le> ecdf_y 5 ! 2
   \<and> (\<exists>w. curveFitting_arrays [0, 1/10, 3/10, 3/10, 1/2, 9/10, 1] (ecdf_y 5)
            = Some (map (\<lambda>v. [v]) [0, 1/10, 3/10, 3/10, 1/2, 9/10, 1], ecdf_y 5, w)
          \<and> w ! 5 = 81/100)"
proof -
  let ?d = "[1/10, 3/10, 3/10, 1/2, 9/10 :: real]"
  let ?X = "[0, 1/10, 3/10, 3/10, 1/2, 9/10, 1 :: real]"
  let ?R = "fitClasses demo_solver [''A''] [''A''] [(''A'', ?d)] \<lparr>bestFit = [], cout = []\<rparr>"
  have five: "length ?d = 5" by simp
  have "launched ?R ! 0 = snd (launch (''A'', ?d))"
    by (simp add: fitClasses_launched)
  also have "\<dots> = (''A'', augment ?d, ecdf_y (length ?d))"
    by (rule launch_job)
  also have "\<dots> = (''A'', ?X, ecdf_y 5)"
    by (simp only: five) (simp add: augment_def)
  finally have l: "launched ?R ! 0 = (''A'', ?X, ecdf_y 5)" .
  have "\<forall>i < length [(''A'', ?d)]. \<forall>name d name' X Y.
         [(''A'', ?d)] ! i = (name, d) \<and> launched ?R ! i = (name', X, Y) \<longrightarrow>
           name' = name
           \<and> input_after ?R ! i = (name, X)
           \<and> X = 0 # d @ [1]
           \<and> length X = length d + 2
           \<and> length Y = length d + 2
           \<and> Y ! 0 = 1
           \<and> Y ! (length d + 1) = 0
           \<and> (\<forall>j. 1 \<le> j \<and> j \<le> length d \<longrightarrow>
                 X ! j = d ! (j - 1) \<and> Y ! j = 1 - real j / real (length d + 1))
           \<and> (\<forall>j k. j \<le> k \<and> k < length d + 2 \<longrightarrow> Y ! k \<le> Y ! j)
           \<and> (\<exists>w. curveFitting_arrays X Y = Some (map (\<lambda>v. [v]) X, Y, w)
                  \<and> length w = length d + 2
                  \<and> (\<forall>j < length d + 2. w ! j = (X ! j)\<^sup>2))"
    using ecdf_points [of demo_solver "[''A'']" "[''A'']" "[(''A'', ?d)]"
        "\<lparr>bestFit = [], cout = []\<rparr>"]
    by blast
  then have "[(''A'', ?d)] ! 0 = (''A'', ?d) \<and> launched ?R ! 0 = (''A'', ?X, ecdf_y 5) \<longrightarrow>
           input_after ?R ! 0 = (''A'', ?X)
           \<and> ecdf_y 5 ! 0 = 1
           \<and> ecdf_y 5 ! (length ?d + 1) = 0
           \<and> (\<forall>j. 1 \<le> j \<and> j \<le> length ?d \<longrightarrow>
                 ?X ! j = ?d ! (j - 1) \<and> ecdf_y 5 ! j = 1 - real j / real (length ?d + 1))
           \<and> (\<forall>j k. j \<le> k \<and> k < length ?d + 2 \<longrightarrow> ecdf_y 5 ! k \<le> ecdf_y 5 ! j)
           \<and> (\<exists>w. curveFitting_arrays ?X (ecdf_y 5) = Some (map (\<lambda>v. [v]) ?X, ecdf_y 5, w)
                  \<and> length w = length ?d + 2
                  \<and> (\<forall>j < length ?d + 2. w ! j = (?X ! j)\<^sup>2))"
    by fastforce
  with l have t: "input_after ?R ! 0 = (''A'', ?X)"
    "ecdf_y 5 ! 0 = 1"
    "ecdf_y 5 ! (length ?d + 1) = 0"
    "\<forall>j. 1 \<le> j \<and> j \<le> length ?d \<longrightarrow>
                 ?X ! j = ?d ! (j - 1) \<and> ecdf_y 5 ! j = 1 - real j / real (length ?d + 1)"
    "\<forall>j k. j \<le> k \<and> k < length ?d + 2 \<longrightarrow> ecdf_y 5 ! k \<le> ecdf_y 5 ! j"
    "\<exists>w. curveFitting_arrays ?X (ecdf_y 5) = Some (map (\<lambda>v. [v]) ?X, ecdf_y 5, w)
                  \<and> length w = length ?d + 2
                  \<and> (\<forall>j < length ?d + 2. w ! j = (?X ! j)\<^sup>2)"
    by simp_all
  from t(3) have y6: "ecdf_y 5 ! 6 = 0" unfolding five by simp
  from t(4) have "(1::nat) \<le> 2 \<and> 2 \<le> length ?d \<longrightarrow>
      ?X ! 2 = ?d ! (2 - 1) \<and> ecdf_y 5 ! 2 = 1 - real 2 / real (length ?d + 1)"
    by (rule spec)
  then have y2: "ecdf_y 5 ! 2 = 2/3" by simp
  from t(5) have "(2::nat) \<le> 4 \<and> 4 < length ?d + 2 \<longrightarrow> ecdf_y 5 ! 4 \<le> ecdf_y 5 ! 2"
    by blast
  then have m: "ecdf_y 5 ! 4 \<le> ecdf_y 5 ! 2" by simp
  from t(6) obtain w where w: "curveFitting_arrays ?X (ecdf_y 5)
      = Some (map (\<lambda>v. [v]) ?X, ecdf_y 5, w)" "\<forall>j < length ?d + 2. w ! j = (?X ! j)\<^sup>2"
    by blast
  from w(2) have "5 < length ?d + 2 \<longrightarrow> w ! 5 = (?X ! 5)\<^sup>2" by (rule spec)
  then have "w ! 5 = 81/100" by (simp add: power2_eq_square)
  with w(1) have ex: "\<exists>w. curveFitting_arrays ?X (ecdf_y 5)
            = Some (map (\<lambda>v. [v]) ?X, ecdf_y 5, w) \<and> w ! 5 = 81/100"
    by blast
  from l t(1) t(2) y2 y6 m ex show ?thesis by blast
qed

text \<open>
  Claim C9. \<open>fitClasses\<close> changes the caller's map in place: afterwards each
  class has its original vector with \<open>0\<close> put in front and \<open>1\<close> appended; the
  original elements are unchanged and in their order (dropping the two new ends
  gives the original back), and the classes and their order are as before. This
  holds for every solver and every schedule.
\<close>

theorem fitClasses_input_after:
  "input_after (fitClasses solver threads_order finished sorted_distances st)
     = map (\<lambda>(name, d). (name, 0 # d @ [1])) sorted_distances
   \<and> map fst (input_after (fitClasses solver threads_order finished sorted_distances st))
     = map fst sorted_distances
   \<and> map (\<lambda>(name, d'). butlast (tl d'))
         (input_after (fitClasses solver threads_order finished sorted_distances st))
     = map snd sorted_distances"
proof -
  have a: "input_after (fitClasses solver threads_order finished sorted_distances st)
     = map (\<lambda>(name, d). (name, 0 # d @ [1])) sorted_distances"
    by (simp add: fitClasses_def Let_def launch_def augment_def case_prod_beta split: prod.splits)
  show ?thesis unfolding a by (simp add: case_prod_beta comp_def)
qed

text \<open>
  Claim C8. Let the table be followed through a run, job by job in the order in
  which the jobs complete. If it starts with at most one entry per class name,
  it has at most one entry per class name after every job; no key is ever
  removed; once the job of a class has completed, the entry of that class is
  never changed again by the jobs that complete after it; and classes whose job
  has not completed have the entry they had before the run. The table that
  \<open>fitClasses\<close> leaves is the table after the last completed job.
\<close>

theorem best_fit_table_invariant:
  assumes "distinct (map fst (bestFit st))" and "distinct finished" and "n \<le> m"
  shows "distinct (map fst (bestFit
            (fold (run_job solver (map (snd \<circ> launch) sorted_distances)) (take m finished) st)))
   \<and> fst ` set (bestFit
            (fold (run_job solver (map (snd \<circ> launch) sorted_distances)) (take n finished) st))
       \<subseteq> fst ` set (bestFit
            (fold (run_job solver (map (snd \<circ> launch) sorted_distances)) (take m finished) st))
   \<and> (\<forall>k \<in> set (take n finished).
         map_of (bestFit
            (fold (run_job solver (map (snd \<circ> launch) sorted_distances)) (take m finished) st)) k
         = map_of (bestFit
            (fold (run_job solver (map (snd \<circ> launch) sorted_distances)) (take n finished) st)) k)
   \<and> (\<forall>k. k \<notin> set (take m finished) \<longrightarrow>
         map_of (bestFit
            (fold (run_job solver (map (snd \<circ> launch) sorted_distances)) (take m finished) st)) k
         = map_of (bestFit st) k)
   \<and> bestFit (state_after (fitClasses solver threads_order finished sorted_distances st))
       = bestFit (fold (run_job solver (map (snd \<circ> launch) sorted_distances))
                   (take (length finished) finished) st)"
proof -
  let ?run = "fold (run_job solver (map (snd \<circ> launch) sorted_distances))"
  let ?later = "drop n (take m finished)"
  have "take n (take m finished) = take n finished"
    using assms(3) by (simp add: min_absorb1)
  then have split: "take m finished = take n finished @ ?later"
    using append_take_drop_id [of n "take m finished"] by simp
  then have run: "?run (take m finished) st = ?run ?later (?run (take n finished) st)"
    by (metis fold_append comp_apply)
  have "distinct (take m finished)" using assms(2) by simp
  then have disj: "set (take n finished) \<inter> set ?later = {}"
    by (subst (asm) split) simp
  have d: "distinct (map fst (bestFit (?run (take m finished) st)))"
    using assms(1) by (rule run_jobs_distinct)
  have k: "fst ` set (bestFit (?run (take n finished) st))
       \<subseteq> fst ` set (bestFit (?run (take m finished) st))"
    unfolding run by (rule run_jobs_keys)
  have f: "\<forall>k \<in> set (take n finished).
         map_of (bestFit (?run (take m finished) st)) k
         = map_of (bestFit (?run (take n finished) st)) k"
  proof
    fix k assume "k \<in> set (take n finished)"
    with disj have "k \<notin> set ?later" by blast
    then show "map_of (bestFit (?run (take m finished) st)) k
         = map_of (bestFit (?run (take n finished) st)) k"
      unfolding run by (rule run_jobs_other)
  qed
  have o: "\<forall>k. k \<notin> set (take m finished) \<longrightarrow>
         map_of (bestFit (?run (take m finished) st)) k = map_of (bestFit st) k"
    using run_jobs_other by blast
  have t: "bestFit (state_after (fitClasses solver threads_order finished sorted_distances st))
       = bestFit (?run (take (length finished) finished) st)"
    by (simp add: fitClasses_table)
  from d k f o t show ?thesis by blast
qed

theorem best_fit_table_invariant_witness:
  "distinct (map fst (bestFit
      (fold (run_job demo_solver (map (snd \<circ> launch) [(''A'', [1/2]), (''B'', [1/4, 3/4])]))
         (take 2 [''A'', ''B'']) \<lparr>bestFit = [], cout = []\<rparr>)))
   \<and> map_of (bestFit
      (fold (run_job demo_solver (map (snd \<circ> launch) [(''A'', [1/2]), (''B'', [1/4, 3/4])]))
         (take 2 [''A'', ''B'']) \<lparr>bestFit = [], cout = []\<rparr>)) ''A''
     = map_of (bestFit
      (fold (run_job demo_solver (map (snd \<circ> launch) [(''A'', [1/2]), (''B'', [1/4, 3/4])]))
         (take 1 [''A'', ''B'']) \<lparr>bestFit = [], cout = []\<rparr>)) ''A''"
proof -
  have h: "distinct (map fst (bestFit \<lparr>bestFit = [], cout = []\<rparr>))"
    "distinct [''A'', ''B'']" "(1::nat) \<le> 2"
    by simp_all
  note t = best_fit_table_invariant [OF h, of demo_solver "[(''A'', [1/2]), (''B'', [1/4, 3/4])]"]
  have "''A'' \<in> set (take 1 [''A'', ''B''])" by simp
  with t show ?thesis by blast
qed

section \<open>Failures\<close>




lemma demo_fits_few:
  "length y \<le> 2 \<Longrightarrow> curveFitting_fits demo_solver x y w = Inl (ap_error ''too few points'')"
  by (simp add: curveFitting_fits_def Let_def and_then_def fit_block_def demo_solver_def)

lemma demo_fits_many:
  "2 < length y \<Longrightarrow> \<exists>v. curveFitting_fits demo_solver x y w = Inr v"
  by (simp add: curveFitting_fits_def Let_def and_then_def fit_block_def demo_solver_def)

lemma demo_outcome:
  assumes "map_of jobs n = Some (sd, yv)" and "length yv \<le> length sd"
  shows "job_outcome demo_solver jobs n =
           (if length yv \<le> 2 then Threw (ap_error ''too few points'') else Returned)"
proof (cases "length yv \<le> 2")
  case True
  with assms show ?thesis
    by (simp add: job_outcome_def curveFitting_outcome demo_fits_few)
next
  case False
  then have "2 < length yv" by simp
  from demo_fits_many [OF this] obtain v where
    "curveFitting_fits demo_solver (map (\<lambda>v. [v]) sd) yv
        (map (\<lambda>i. sd ! i * sd ! i) [0..<length yv]) = Inr v"
    by blast
  with False assms show ?thesis
    by (simp add: job_outcome_def curveFitting_outcome)
qed

lemma demo_outcome_launched:
  assumes "map_of (map (snd \<circ> launch) input) n = Some (augment d, ecdf_y (length d))"
  shows "job_outcome demo_solver (map (snd \<circ> launch) input) n =
           (if d = [] then Threw (ap_error ''too few points'') else Returned)"
  using demo_outcome [OF assms] by (simp add: length_ecdf_y length_augment)






subsection \<open>Runs with the second solver\<close>









text \<open>
  Claim C3 says that every launched job is joined before \<open>fitClasses\<close> returns.
  The handler's \<open>return 1\<close> is inside the loop: with classes \<open>A\<close> (no samples,
  which the first solver refuses) and \<open>B\<close> (one sample), met in this order, the
  loop is left by \<open>return 1\<close> after joining \<open>A\<close> alone, while the thread of \<open>B\<close>,
  whose job would return normally, has not been joined; destroying it aborts
  the process, so that the call does not return at all.
\<close>

theorem join_loop_returns_before_joining_all:
  "schedule_ok demo_solver [''A'', ''B''] [''A''] [(''A'', []), (''B'', [1/2])]
   \<and> join_loop (job_outcome demo_solver (map (snd \<circ> launch) [(''A'', []), (''B'', [1/2])]))
         [''A'', ''B''] []
       = (1, [''A''], [Failure ''A'' ''too few points''])
   \<and> ended (fitClasses demo_solver [''A'', ''B''] [''A''] [(''A'', []), (''B'', [1/2])]
           \<lparr>bestFit = [], cout = []\<rparr>) = Terminates
   \<and> joined (fitClasses demo_solver [''A'', ''B''] [''A''] [(''A'', []), (''B'', [1/2])]
           \<lparr>bestFit = [], cout = []\<rparr>) = [''A'']
   \<and> unjoined (fitClasses demo_solver [''A'', ''B''] [''A''] [(''A'', []), (''B'', [1/2])]
           \<lparr>bestFit = [], cout = []\<rparr>) = [''B'']
   \<and> job_outcome demo_solver (map (snd \<circ> launch) [(''A'', []), (''B'', [1/2])]) ''B''
       = Returned"
proof -
  let ?I = "[(''A'', []), (''B'', [1/2 :: real])]"
  have A: "job_outcome demo_solver (map (snd \<circ> launch) ?I) ''A'' = Threw (ap_error ''too few points'')"
    using demo_outcome_launched [of ?I "''A''" "[]"] by (simp add: launch_job)
  have B: "job_outcome demo_solver (map (snd \<circ> launch) ?I) ''B'' = Returned"
    using demo_outcome_launched [of ?I "''B''" "[1/2]"] by (simp add: launch_job)
  have j: "join_loop (job_outcome demo_solver (map (snd \<circ> launch) ?I)) [''A'', ''B''] []
      = (1, [''A''], [Failure ''A'' ''too few points''])"
    using join_loop_first_failure [of "[]" "job_outcome demo_solver (map (snd \<circ> launch) ?I)"
        "''A''" "ap_error ''too few points''" "[''B'']" "[]"] A
    by simp
  have ok: "schedule_ok demo_solver [''A'', ''B''] [''A''] ?I"
    unfolding schedule_ok_def j by simp
  from fitClasses_join [OF j, of "[''A'']" "\<lparr>bestFit = [], cout = []\<rparr>"] ok B j
  show ?thesis by simp
qed

end
